theory Spec2Isabelle
  imports Main
begin

text \<open>
  tuntun keeps SSH connections up and forwards TCP ports over them. This theory embeds
  the code of \<open>main.go\<close> that decides how a connection is validated, connected,
  probed, closed and reconnected, and how accepted connections are forwarded and piped,
  and proves the properties stated of it. What the program asks of the operating
  system, the network and the SSH library is a parameter (\<open>world\<close>); what it does to
  them is recorded as a list of events.
\<close>

section \<open>Go values used by tuntun\<close>

text \<open>
  A Go \<open>error\<close> is represented by its message (\<open>err.Error()\<close>); a call that returns
  \<open>(v, err)\<close> is a sum, \<open>Inl\<close> the error. A \<open>time.Duration\<close> is an \<open>int64\<close> count of
  nanoseconds: it is an \<open>int\<close> here, and \<open>int64\<close> writes the wrap-around out where the
  code multiplies.
\<close>

type_synonym error = string
type_synonym duration = int

definition int64 :: "int \<Rightarrow> int" where
  "int64 x = (x + 2 ^ 63) mod 2 ^ 64 - 2 ^ 63"

definition quo :: "int \<Rightarrow> int \<Rightarrow> int" where
  \<comment> \<open>Go's integer division truncates towards zero.\<close>
  "quo a b = sgn a * sgn b * (\<bar>a\<bar> div \<bar>b\<bar>)"

definition Second :: duration where
  "Second = 1000000000"

definition Minute :: duration where
  "Minute = 60 * Second"

text \<open>
  Modelled from the spec: the type \<open>Duration\<close> and its methods \<open>Unwrap\<close> and \<open>Set\<close> are
  declared outside \<open>main.go\<close>. It is the type of the configured keepalive interval and
  maximum reconnect delay; \<open>sampleConfig\<close> builds one as \<open>Duration{30 * time.Second}\<close>. It
  is taken to hold that \<open>time.Duration\<close> and nothing else: \<open>Unwrap\<close> returns it, \<open>Set\<close>
  replaces it.
\<close>

datatype Duration = Duration duration

fun Unwrap :: "Duration \<Rightarrow> duration" where
  "Unwrap (Duration d) = d"

fun Set :: "duration \<Rightarrow> Duration \<Rightarrow> Duration" where
  "Set v (Duration d) = Duration v"

text \<open>Handles of the operating system and of the SSH library are opaque; they are numbered.\<close>

datatype ssh_Client = Client nat
datatype ssh_Signer = Signer nat
datatype net_Listener = Listener nat
datatype net_Conn = Conn nat

datatype ssh_AuthMethod = ssh_PublicKeys ssh_Signer | ssh_Password string

subsection \<open>Standard library functions the program calls\<close>

text \<open>
  \<open>net.JoinHostPort\<close>, \<open>net.SplitHostPort\<close> and \<open>time.Duration.String\<close> are pure
  functions of the Go standard library, not of this repository. They are written out
  after the library's code so that runs of the program can be evaluated on concrete
  strings; the theorems on \<open>validate\<close> and \<open>connect\<close> below do not unfold them.
\<close>

fun IndexByteString :: "string \<Rightarrow> char \<Rightarrow> nat option" where
  "IndexByteString [] b = None"
| "IndexByteString (x # xs) b =
     (if x = b then Some 0 else map_option Suc (IndexByteString xs b))"

definition LastIndexByteString :: "string \<Rightarrow> char \<Rightarrow> nat option" where
  "LastIndexByteString s b =
     map_option (\<lambda>i. length s - 1 - i) (IndexByteString (rev s) b)"

definition JoinHostPort :: "string \<Rightarrow> string \<Rightarrow> string" where
  "JoinHostPort host port =
     (if IndexByteString host CHR '':'' \<noteq> None then ''['' @ host @ '']:'' @ port
      else host @ '':'' @ port)"

definition addrErr :: "string \<Rightarrow> string \<Rightarrow> error + (string \<times> string)" where
  "addrErr addr why = Inl (if addr \<noteq> [] then ''address '' @ addr @ '': '' @ why else why)"

definition SplitHostPort_tail ::
  "string \<Rightarrow> nat \<Rightarrow> string \<Rightarrow> nat \<Rightarrow> nat \<Rightarrow> error + (string \<times> string)" where
  "SplitHostPort_tail hostport i host j k =
     (if IndexByteString (drop j hostport) CHR ''['' \<noteq> None
        then addrErr hostport (''unexpected '' @ [CHR 0x27, CHR ''['', CHR 0x27] @ '' in address'')
      else if IndexByteString (drop k hostport) CHR '']'' \<noteq> None
        then addrErr hostport (''unexpected '' @ [CHR 0x27, CHR '']'', CHR 0x27] @ '' in address'')
      else Inr (host, drop (i + 1) hostport))"

definition SplitHostPort :: "string \<Rightarrow> error + (string \<times> string)" where
  "SplitHostPort hostport =
     (case LastIndexByteString hostport CHR '':'' of
        None \<Rightarrow> addrErr hostport ''missing port in address''
      | Some i \<Rightarrow>
          if take 1 hostport = ''[''
          then (case IndexByteString hostport CHR '']'' of
                  None \<Rightarrow>
                    addrErr hostport
                      (''missing '' @ [CHR 0x27, CHR '']'', CHR 0x27] @ '' in address'')
                | Some e \<Rightarrow>
                    if e + 1 = length hostport
                      then addrErr hostport ''missing port in address''
                    else if e + 1 = i
                      then SplitHostPort_tail hostport i (take (e - 1) (drop 1 hostport)) 1 (e + 1)
                    else if hostport ! (e + 1) = CHR '':''
                      then addrErr hostport ''too many colons in address''
                    else addrErr hostport ''missing port in address'')
          else if IndexByteString (take i hostport) CHR '':'' \<noteq> None
            then addrErr hostport ''too many colons in address''
          else SplitHostPort_tail hostport i (take i hostport) 0 0)"

text \<open>
  \<open>Duration.String\<close> fills a buffer from its end; the buffer is the string built so
  far. \<open>fmtFrac\<close> prints the last \<open>prec\<close> decimal digits without trailing zeros,
  \<open>fmtInt\<close> a whole number. The \<open>uint64\<close> they work on is an \<open>int\<close> that is never
  negative.
\<close>

definition digit_byte :: "int \<Rightarrow> char" where
  \<comment> \<open>\<open>byte(digit) + '0'\<close>\<close>
  "digit_byte v = ''0123456789'' ! nat v"

fun fmtFrac_loop :: "nat \<Rightarrow> bool \<Rightarrow> string \<Rightarrow> int \<Rightarrow> string \<times> int" where
  "fmtFrac_loop 0 print buf v = (if print then CHR ''.'' # buf else buf, v)"
| "fmtFrac_loop (Suc n) print buf v =
     (let digit = v mod 10;
          print' = (print \<or> digit \<noteq> 0)
      in fmtFrac_loop n print'
           (if print' then digit_byte digit # buf else buf) (v div 10))"

definition fmtFrac :: "string \<Rightarrow> int \<Rightarrow> nat \<Rightarrow> string \<times> int" where
  "fmtFrac buf v prec = fmtFrac_loop prec False buf v"

function fmtInt_loop :: "string \<Rightarrow> int \<Rightarrow> string" where
  "fmtInt_loop buf v =
     (if v > 0 then fmtInt_loop (digit_byte (v mod 10) # buf) (v div 10) else buf)"
  by pat_completeness auto
termination
  by (relation "measure (\<lambda>(buf, v). nat v)") auto

definition fmtInt :: "string \<Rightarrow> int \<Rightarrow> string" where
  "fmtInt buf v = (if v = 0 then CHR ''0'' # buf else fmtInt_loop buf v)"

definition Duration_String :: "duration \<Rightarrow> string" where
  "Duration_String d =
     (let u = \<bar>d\<bar>;
          body =
            (if u < 1000000000 then
               (if u = 0 then ''0s''
                else if u < 1000 then fmtInt ''ns'' u
                else if u < 1000000 then
                  (case fmtFrac [CHR 0xC2, CHR 0xB5, CHR ''s''] u 3 of (buf, u') \<Rightarrow> fmtInt buf u')
                else (case fmtFrac ''ms'' u 6 of (buf, u') \<Rightarrow> fmtInt buf u'))
             else
               (case fmtFrac ''s'' u 9 of
                  (buf, secs) \<Rightarrow>
                    let buf1 = fmtInt buf (secs mod 60);
                        mins = secs div 60
                    in if mins > 0 then
                         (let buf2 = fmtInt (CHR ''m'' # buf1) (mins mod 60);
                              hours = mins div 60
                          in if hours > 0 then fmtInt (CHR ''h'' # buf2) hours else buf2)
                       else buf1))
      in if d < 0 then CHR ''-'' # body else body)"

section \<open>Data model\<close>

record Endpoint =
  Side :: string
  Address :: string

datatype TunnelDirection = UnspecifiedDirection | ExposedOnServer | ExposedLocally

record Tunnel =
  From :: Endpoint
  To :: Endpoint
  direction :: TunnelDirection

text \<open>
  What the program does to the outside, in program order: a log line, a goroutine it
  starts (\<open>go x.Close()\<close>, \<open>go Forward(...)\<close>), a wait for the ticker, a sleep.
\<close>

datatype DialFunc = conn_Dial ssh_Client | net_Dial

datatype event =
    Println string
  | go_Client_Close ssh_Client
  | go_Listener_Close net_Listener
  | go_Forward net_Listener string DialFunc
  | Tick
  | Sleep duration

text \<open>
  The \<open>Connection\<close> struct. \<open>status\<close> is the \<open>atomic.Value\<close>, \<open>None\<close> before the first store.
  \<open>Tunnels\<close> holds the tunnels the pointers of the slice point to (none nil, no two
  the same). \<open>trace\<close> is not a field of the struct: it collects the events of the
  methods run on this connection.
\<close>

record Connection =
  Name :: string
  Host :: string
  Username :: string
  KeyFile :: string
  Key :: string
  Password :: string
  Fingerprint :: string
  KeepAliveInterval :: Duration
  MaxReconnectDelay :: Duration
  Tunnels :: "Tunnel list"
  status :: "string option"
  auth :: "ssh_AuthMethod option"
  conn :: "ssh_Client option"
  listeners :: "net_Listener list"
  reconnectDelay :: duration
  trace :: "event list"

text \<open>
  The answers of the outside world during one pass of the supervisor loop (or during
  start-up validation): name resolution, the file system, the key parser, the SSH dial,
  the listen calls (by position of the tunnel in \<open>Tunnels\<close> and address), and the
  keepalive request.
\<close>

datatype keepalive_reply =
    Reply nat "error option"  \<comment> \<open>\<open>SendRequest\<close> returns after so many nanoseconds\<close>
  | NoReply                   \<comment> \<open>\<open>SendRequest\<close> never returns\<close>

record world =
  LookupHost :: "string \<Rightarrow> string list"
  ReadFile :: "string \<Rightarrow> error + string"
  ParsePrivateKey :: "string \<Rightarrow> error + ssh_Signer"
  ParsePrivateKeyWithPassphrase :: "string \<Rightarrow> string \<Rightarrow> error + ssh_Signer"
  ssh_Dial :: "string \<Rightarrow> string \<Rightarrow> ssh_AuthMethod list \<Rightarrow> string \<Rightarrow> error + ssh_Client"
  net_Listen :: "nat \<Rightarrow> string \<Rightarrow> error + net_Listener"
  conn_Listen :: "ssh_Client \<Rightarrow> nat \<Rightarrow> string \<Rightarrow> error + net_Listener"
  SendRequest :: "ssh_Client \<Rightarrow> keepalive_reply"
  select_tie :: bool  \<comment> \<open>timer and reply ready at once: \<open>True\<close> when select takes the timer\<close>

section \<open>Status\<close>

text \<open>\<open>setStatus\<close> logs and stores the status; the time stamp of the log line is left out.\<close>

definition setStatus :: "string \<Rightarrow> Connection \<Rightarrow> Connection" where
  "setStatus s c =
     c\<lparr>status := Some s, trace := trace c @ [Println (Name c @ '': '' @ s)]\<rparr>"

definition getStatus :: "Connection \<Rightarrow> string" where
  "getStatus c = (case status c of None \<Rightarrow> [] | Some s \<Rightarrow> s)"

section \<open>Validation\<close>

text \<open>
  \<open>validate\<close> returns the issue (\<open>[]\<close> when there is none) and the connection as it
  leaves it. Its parts return \<open>Some issue\<close> where the code returns early and \<open>None\<close>
  where it goes on.
\<close>

definition validate_host :: "world \<Rightarrow> Connection \<Rightarrow> string option \<times> Connection" where
  \<comment> \<open>\<open>// check that Host resolves\<close>\<close>
  "validate_host w c =
     (case (case SplitHostPort (Host c) of
              Inl err \<Rightarrow> (Host c, c\<lparr>Host := JoinHostPort (Host c) ''22''\<rparr>)
            | Inr (host, port) \<Rightarrow> (host, c)) of
        (host, c') \<Rightarrow>
          if length (LookupHost w host) = 0
          then (Some (''failed to resolve host '' @ Host c' @ '' for connection '' @ Name c'), c')
          else (None, c'))"

definition validate_auth :: "world \<Rightarrow> Connection \<Rightarrow> string option \<times> Connection" where
  \<comment> \<open>\<open>// try to read key (if set)\<close> up to \<open>// if no key is set, try to use password\<close>;
      \<open>key\<close> is \<open>None\<close> for the nil slice\<close>
  "validate_auth w c =
     (case (if KeyFile c \<noteq> [] then
              (case ReadFile w (KeyFile c) of
                 Inl err \<Rightarrow>
                   Inl (''failed to read key file '' @ KeyFile c @ '' for connection ''
                        @ Name c @ '': '' @ err)
               | Inr data \<Rightarrow> Inr (Some data))
            else if Key c \<noteq> [] then Inr (Some (Key c))
            else Inr None) of
        Inl issue \<Rightarrow> (Some issue, c)
      | Inr key \<Rightarrow>
          (case (case key of
                   None \<Rightarrow> Inr c
                 | Some k \<Rightarrow>
                     (case (if Password c = [] then ParsePrivateKey w k
                            else ParsePrivateKeyWithPassphrase w k (Password c)) of
                        Inl err \<Rightarrow>
                          Inl (''failed to parse key for connection '' @ Name c @ '': '' @ err)
                      | Inr signer \<Rightarrow> Inr (c\<lparr>auth := Some (ssh_PublicKeys signer)\<rparr>))) of
             Inl issue \<Rightarrow> (Some issue, c)
           | Inr c' \<Rightarrow>
               (None,
                if auth c' = None \<and> Password c' \<noteq> []
                then c'\<lparr>auth := Some (ssh_Password (Password c'))\<rparr> else c')))"

definition validate_addresses :: "string \<Rightarrow> Tunnel \<Rightarrow> string option" where
  \<comment> \<open>\<open>// check that From and To are valid\<close>\<close>
  "validate_addresses name t =
     (case SplitHostPort (Address (From t)) of
        Inl err \<Rightarrow>
          Some (''for connection '' @ name @ '', tunnel From address is invalid: '' @ err)
      | Inr (h, fromPort) \<Rightarrow>
          if fromPort = []
          then Some (''for connection '' @ name @ '', tunnel From address is missing port number'')
          else (case SplitHostPort (Address (To t)) of
                  Inl err \<Rightarrow>
                    Some (''for connection '' @ name @ '', tunnel To address is invalid: '' @ err)
                | Inr (h', toPort) \<Rightarrow>
                    if toPort = []
                    then Some (''for connection '' @ name
                               @ '', tunnel To address is missing port number'')
                    else None))"

definition validate_tunnel :: "string \<Rightarrow> Tunnel \<Rightarrow> string option \<times> Tunnel" where
  \<comment> \<open>the body of the loop under \<open>// check tunnels\<close>, for the connection's name\<close>
  "validate_tunnel name t =
     (if Side (From t) = [] then (Some (name @ ''.From.Side is empty''), t)
      else if Address (From t) = [] then (Some (name @ ''.From.Address is empty''), t)
      else if Side (To t) = [] then (Some (name @ ''.To.Side is empty''), t)
      else if Address (To t) = [] then (Some (name @ ''.To.Address is empty''), t)
      else
        (case (if Side (From t) = ''Local'' \<and> Side (To t) = ''Remote''
                 then Inr (t\<lparr>direction := ExposedLocally\<rparr>)
               else if Side (From t) = ''Remote'' \<and> Side (To t) = ''Local''
                 then Inr (t\<lparr>direction := ExposedOnServer\<rparr>)
               else Inl (''for connection '' @ name
                         @ '', tunnel should be Local->Remote or Remote->Local'')) of
           Inl issue \<Rightarrow> (Some issue, t)
         | Inr t' \<Rightarrow> (validate_addresses name t', t')))"

fun validate_tunnels :: "string \<Rightarrow> Tunnel list \<Rightarrow> string option \<times> Tunnel list" where
  "validate_tunnels name [] = (None, [])"
| "validate_tunnels name (t # ts) =
     (case validate_tunnel name t of
        (Some issue, t') \<Rightarrow> (Some issue, t' # ts)
      | (None, t') \<Rightarrow>
          (case validate_tunnels name ts of (r, ts') \<Rightarrow> (r, t' # ts')))"

definition validate_defaults :: "Connection \<Rightarrow> Connection" where
  "validate_defaults c =
     (let c1 = (if Unwrap (KeepAliveInterval c) = 0
                then c\<lparr>KeepAliveInterval := Set Minute (KeepAliveInterval c)\<rparr> else c)
      in if Unwrap (MaxReconnectDelay c1) = 0
         then c1\<lparr>MaxReconnectDelay := Set Minute (MaxReconnectDelay c1)\<rparr> else c1)"

definition validate_rest :: "world \<Rightarrow> Connection \<Rightarrow> string \<times> Connection" where
  \<comment> \<open>from \<open>// try to read key (if set)\<close> to the end of \<open>validate\<close>\<close>
  "validate_rest w c =
     (case validate_auth w c of
        (Some issue, c') \<Rightarrow> (issue, c')
      | (None, c') \<Rightarrow>
          (case validate_tunnels (Name c') (Tunnels c') of
             (Some issue, ts) \<Rightarrow> (issue, c'\<lparr>Tunnels := ts\<rparr>)
           | (None, ts) \<Rightarrow> ([], c'\<lparr>Tunnels := ts\<rparr>)))"

definition validate :: "world \<Rightarrow> Connection \<Rightarrow> string \<times> Connection" where
  "validate w c =
     (if Name c = [] then (''connection has no name'', c)
      else if Host c = [] then (''host is empty for connection '' @ Name c, c)
      else if Username c = [] then (''username is empty for connection '' @ Name c, c)
      else if length (Tunnels c) = 0 then (''no tunnels defined for connection '' @ Name c, c)
      else
        let c1 = validate_defaults c
        in if KeyFile c1 \<noteq> [] \<and> Key c1 \<noteq> []
           then (''connection '' @ Name c1 @ '' has both KeyFile and Key set'', c1)
           else (case validate_host w c1 of
                   (Some issue, c2) \<Rightarrow> (issue, c2)
                 | (None, c2) \<Rightarrow> validate_rest w c2))"

text \<open>
  \<open>Start\<close>, after the configuration file is read and parsed: an empty configuration
  and the first connection with an issue are errors; otherwise a supervisor is started
  for every connection (they are returned as validation leaves them).
\<close>

fun validate_all :: "world \<Rightarrow> Connection list \<Rightarrow> error + Connection list" where
  "validate_all w [] = Inr []"
| "validate_all w (c # cs) =
     (case validate w c of
        (issue, c') \<Rightarrow>
          if issue \<noteq> [] then Inl (''invalid config: '' @ issue)
          else (case validate_all w cs of Inl e \<Rightarrow> Inl e | Inr cs' \<Rightarrow> Inr (c' # cs')))"

definition Start :: "world \<Rightarrow> Connection list \<Rightarrow> error + Connection list" where
  "Start w config =
     (if length config = 0 then Inl ''no connections defined in config''
      else validate_all w config)"

section \<open>Connecting and closing\<close>

datatype panic = Panic string

text \<open>
  The loop under \<open>// establish tunnels\<close>, run with \<open>c.conn\<close> the client \<open>cl\<close> just
  dialled; \<open>i\<close> is the position of the tunnel in \<open>c.Tunnels\<close>.
\<close>

fun establish_tunnels ::
  "world \<Rightarrow> ssh_Client \<Rightarrow> nat \<Rightarrow> Tunnel list \<Rightarrow> Connection \<Rightarrow> panic + Connection" where
  "establish_tunnels w cl i [] c = Inr c"
| "establish_tunnels w cl i (t # ts) c =
     (case direction t of
        ExposedLocally \<Rightarrow>
          (case net_Listen w i (Address (From t)) of
             Inl err \<Rightarrow>
               establish_tunnels w cl (i + 1) ts
                 (setStatus (''failed to listen on '' @ Address (From t) @ '' (Local): '' @ err) c)
           | Inr l \<Rightarrow>
               establish_tunnels w cl (i + 1) ts
                 (c\<lparr>listeners := listeners c @ [l],
                    trace := trace c @ [go_Forward l (Address (To t)) (conn_Dial cl)]\<rparr>))
      | ExposedOnServer \<Rightarrow>
          (case conn_Listen w cl i (Address (From t)) of
             Inl err \<Rightarrow>
               establish_tunnels w cl (i + 1) ts
                 (setStatus (''failed to listen on '' @ Address (From t) @ '' (Remote): '' @ err) c)
           | Inr r \<Rightarrow>
               establish_tunnels w cl (i + 1) ts
                 (c\<lparr>listeners := listeners c @ [r],
                    trace := trace c @ [go_Forward r (Address (To t)) net_Dial]\<rparr>))
      | UnspecifiedDirection \<Rightarrow> Inl (Panic ''invalid tunnel direction''))"

definition connect :: "world \<Rightarrow> Connection \<Rightarrow> panic + (bool \<times> Connection)" where
  "connect w c =
     (if conn c \<noteq> None then Inr (True, setStatus ''already connected'' c)
      else
        (case validate w c of
           (issue, c1) \<Rightarrow>
             if issue \<noteq> [] then Inr (False, setStatus issue c1)
             else
               let c2 = setStatus ''connecting'' c1;
                   authMethods = (case auth c2 of None \<Rightarrow> [] | Some a \<Rightarrow> [a])
               in (case ssh_Dial w (Host c2) (Username c2) authMethods (Fingerprint c2) of
                     Inl err \<Rightarrow>
                       Inr (False,
                            setStatus (''failed to connect to '' @ Host c2 @ '': '' @ err)
                              (c2\<lparr>conn := None\<rparr>))
                   | Inr cl \<Rightarrow>
                       (case establish_tunnels w cl 0 (Tunnels c2)
                               (setStatus ''configuring tunnels'' (c2\<lparr>conn := Some cl\<rparr>)) of
                          Inl p \<Rightarrow> Inl p
                        | Inr c3 \<Rightarrow> Inr (True, setStatus ''ok'' c3)))))"

definition Close :: "Connection \<Rightarrow> error option \<times> Connection" where
  "Close c =
     (let c1 = (case conn c of
                  Some cl \<Rightarrow> c\<lparr>trace := trace c @ [go_Client_Close cl]\<rparr>
                | None \<Rightarrow> c);
          c2 = c1\<lparr>conn := None\<rparr>;
          c3 = c2\<lparr>trace := trace c2 @ map go_Listener_Close (listeners c2)\<rparr>
      in (None, c3\<lparr>listeners := []\<rparr>))"

section \<open>Liveness probe\<close>

text \<open>
  The timer fires \<open>timeout\<close> after it is made (at once when \<open>timeout\<close> is not
  positive); the reply of \<open>SendRequest\<close> reaches \<open>errChan\<close> at its own time. The
  \<open>select\<close> takes the case that is ready first, and \<open>select_tie\<close> decides when both
  are ready at the same instant.
\<close>

definition IsAlive :: "world \<Rightarrow> Connection \<Rightarrow> duration \<Rightarrow> bool" where
  "IsAlive w c timeout =
     (case conn c of
        None \<Rightarrow> False
      | Some cl \<Rightarrow>
          (case SendRequest w cl of
             NoReply \<Rightarrow> False
           | Reply t err \<Rightarrow>
               if int t < max 0 timeout then err = None
               else if max 0 timeout < int t then False
               else if select_tie w then False
               else err = None))"

section \<open>The supervisor loop\<close>

text \<open>
  One pass of the \<open>for\<close> loop of \<open>Handle\<close>, in the world \<open>w\<close> of that pass; \<open>kii\<close> is
  the keepalive interval read when \<open>Handle\<close> starts. \<open>reconnect\<close> is the pass up to the
  value of \<open>success\<close>, \<open>backoff\<close> the body of \<open>if !success\<close>.
\<close>

definition reconnect :: "world \<Rightarrow> Connection \<Rightarrow> panic + (bool \<times> Connection)" where
  "reconnect w c = connect w (snd (Close (setStatus ''disconnected'' c)))"

definition backoff :: "Connection \<Rightarrow> Connection" where
  "backoff c =
     (let c1 = c\<lparr>reconnectDelay := int64 (reconnectDelay c * 2)\<rparr>;
          c2 = (if reconnectDelay c1 > Unwrap (MaxReconnectDelay c1)
                then c1\<lparr>reconnectDelay := Unwrap (MaxReconnectDelay c1)\<rparr> else c1);
          c3 = setStatus (''reconnecting in '' @ Duration_String (reconnectDelay c2)) c2
      in c3\<lparr>trace := trace c3 @ [Sleep (reconnectDelay c3)]\<rparr>)"

definition Handle_pass :: "duration \<Rightarrow> world \<Rightarrow> Connection \<Rightarrow> panic + Connection" where
  "Handle_pass kii w c =
     (if IsAlive w c (int64 (quo kii 10 * 9))
      then Inr (c\<lparr>reconnectDelay := Second, trace := trace c @ [Tick]\<rparr>)
      else (case reconnect w c of
              Inl p \<Rightarrow> Inl p
            | Inr (success, c') \<Rightarrow> if \<not> success then Inr (backoff c') else Inr c'))"

text \<open>
  The loop never ends by itself: \<open>Handle_loop\<close> runs as many passes as there are
  worlds in the list, and stops early only on a panic.
\<close>

fun Handle_loop :: "duration \<Rightarrow> world list \<Rightarrow> Connection \<Rightarrow> panic + Connection" where
  "Handle_loop kii [] c = Inr c"
| "Handle_loop kii (w # ws) c =
     (case Handle_pass kii w c of Inl p \<Rightarrow> Inl p | Inr c' \<Rightarrow> Handle_loop kii ws c')"

definition Handle :: "world list \<Rightarrow> Connection \<Rightarrow> panic + Connection" where
  "Handle ws c =
     (let kii = Unwrap (KeepAliveInterval c)
      in if kii \<le> 0 then Inl (Panic ''non-positive interval for NewTicker'')
         else Handle_loop kii ws (c\<lparr>reconnectDelay := Second\<rparr>))"

section \<open>Pipes and forwarders\<close>

text \<open>
  A \<open>Pipe\<close>: \<open>close1\<close> and \<open>close2\<close> are the \<open>sync.Once\<close> values, \<open>True\<close> once used.
  \<open>closed\<close> is not a field of the struct: it lists the streams on which \<open>Close\<close> was
  executed, in order. \<open>stream_Close\<close> gives the error that \<open>Close\<close> returns on a stream.
\<close>

record Pipe =
  conn1 :: net_Conn
  conn2 :: net_Conn
  close1 :: bool
  close2 :: bool
  closed :: "net_Conn list"

definition close1_Do :: "(net_Conn \<Rightarrow> error option) \<Rightarrow> Pipe \<Rightarrow> error option \<times> Pipe" where
  \<comment> \<open>\<open>p.close1.Do(func() { err1 = p.conn1.Close() })\<close>\<close>
  "close1_Do stream_Close p =
     (if close1 p then (None, p)
      else (stream_Close (conn1 p), p\<lparr>close1 := True, closed := closed p @ [conn1 p]\<rparr>))"

definition close2_Do :: "(net_Conn \<Rightarrow> error option) \<Rightarrow> Pipe \<Rightarrow> error option \<times> Pipe" where
  \<comment> \<open>\<open>p.close2.Do(func() { err2 = p.conn2.Close() })\<close>\<close>
  "close2_Do stream_Close p =
     (if close2 p then (None, p)
      else (stream_Close (conn2 p), p\<lparr>close2 := True, closed := closed p @ [conn2 p]\<rparr>))"

definition Pipe_Close :: "(net_Conn \<Rightarrow> error option) \<Rightarrow> Pipe \<Rightarrow> error option \<times> Pipe" where
  "Pipe_Close stream_Close p =
     (case close1_Do stream_Close p of
        (err1, p1) \<Rightarrow>
          (case close2_Do stream_Close p1 of
             (err2, p2) \<Rightarrow>
               (if err1 \<noteq> None then err1 else if err2 \<noteq> None then err2 else None, p2)))"

definition ConnectConns :: "net_Conn \<Rightarrow> net_Conn \<Rightarrow> Pipe" where
  \<comment> \<open>the pipe as \<open>ConnectConns\<close> makes it (its log line is left out); the two copy tasks
      it starts are \<open>pipe_task\<close>s below\<close>
  "ConnectConns c1 c2 = \<lparr>conn1 = c1, conn2 = c2, close1 = False, close2 = False, closed = []\<rparr>"

text \<open>
  Who calls \<open>p.Close()\<close>: the task copying from \<open>conn1\<close> when its \<open>io.Copy\<close> returns,
  the task copying from \<open>conn2\<close> likewise, or any other holder of the pipe. Calls that
  run at the same time interleave at the two \<open>Once.Do\<close> steps of \<open>Close\<close>: a schedule is
  the list of the steps in the order they take effect.
\<close>

datatype pipe_task = copy_1_to_2 | copy_2_to_1 | external

datatype once_step = Do_close1 | Do_close2

fun run_step :: "(net_Conn \<Rightarrow> error option) \<Rightarrow> once_step \<Rightarrow> Pipe \<Rightarrow> Pipe" where
  "run_step stream_Close Do_close1 p = snd (close1_Do stream_Close p)"
| "run_step stream_Close Do_close2 p = snd (close2_Do stream_Close p)"

definition run_steps :: "(net_Conn \<Rightarrow> error option) \<Rightarrow> once_step list \<Rightarrow> Pipe \<Rightarrow> Pipe" where
  "run_steps stream_Close steps p = foldl (\<lambda>p s. run_step stream_Close s p) p steps"

definition run_tasks :: "(net_Conn \<Rightarrow> error option) \<Rightarrow> pipe_task list \<Rightarrow> Pipe \<Rightarrow> Pipe" where
  \<comment> \<open>the tasks finish one after the other, each calling \<open>p.Close()\<close>\<close>
  "run_tasks stream_Close tasks p = foldl (\<lambda>p t. snd (Pipe_Close stream_Close p)) p tasks"

text \<open>
  \<open>Forward\<close>: the listener's answers to \<open>Accept\<close> are a list; \<open>with\<close> gives the result
  of the dial made for an accepted connection. Each accepted connection is handled in a
  goroutine of its own, \<open>Forward_conn\<close>; \<open>Forward\<close> collects the goroutines it started,
  what it logged itself, and whether it returned (it is waiting in \<open>Accept\<close> when the
  list is used up).
\<close>

datatype accept_result = Accepted net_Conn | Accept_error error

datatype conn_event =
    conn_Close net_Conn
  | log_line string
  | go_ConnectConns net_Conn net_Conn

definition Forward_conn ::
  "string \<Rightarrow> (net_Conn \<Rightarrow> error + net_Conn) \<Rightarrow> net_Conn \<Rightarrow> conn_event list" where
  "Forward_conn to with accepted =
     (case with accepted of
        Inl err \<Rightarrow> [conn_Close accepted, log_line (''failed to connect to '' @ to @ '': '' @ err)]
      | Inr toConn \<Rightarrow> [go_ConnectConns accepted toConn])"

record forwarder =
  started :: "conn_event list list"
  logged :: "string list"
  returned :: bool

fun Forward ::
  "string \<Rightarrow> accept_result list \<Rightarrow> string \<Rightarrow> (net_Conn \<Rightarrow> error + net_Conn)
   \<Rightarrow> forwarder \<Rightarrow> forwarder" where
  "Forward addr [] to with f = f"
| "Forward addr (Accept_error err # rest) to with f =
     f\<lparr>logged := logged f @ [''error listening on '' @ addr @ '': '' @ err], returned := True\<rparr>"
| "Forward addr (Accepted accepted # rest) to with f =
     Forward addr rest to with (f\<lparr>started := started f @ [Forward_conn to with accepted]\<rparr>)"

section \<open>Notions used to state the properties\<close>

text \<open>The two pairs of side tags a tunnel may have.\<close>

definition Local_to_Remote :: "Tunnel \<Rightarrow> bool" where
  "Local_to_Remote t \<longleftrightarrow> Side (From t) = ''Local'' \<and> Side (To t) = ''Remote''"

definition Remote_to_Local :: "Tunnel \<Rightarrow> bool" where
  "Remote_to_Local t \<longleftrightarrow> Side (From t) = ''Remote'' \<and> Side (To t) = ''Local''"

text \<open>
  What \<open>connect\<close> does with the tunnel at position \<open>i\<close>: the outcome of the listen call
  made for it, as the status text of the failure or as the listener with the dial
  function its forwarder is given (no call is made for a tunnel without direction);
  the listener it adds to the listener set, if any; and the one event it adds.
\<close>

definition tunnel_setup ::
  "world \<Rightarrow> ssh_Client \<Rightarrow> nat \<times> Tunnel \<Rightarrow> string + (net_Listener \<times> DialFunc)" where
  "tunnel_setup w cl x =
     (case x of (i, t) \<Rightarrow>
        (case direction t of
           ExposedLocally \<Rightarrow>
             (case net_Listen w i (Address (From t)) of
                Inl err \<Rightarrow> Inl (''failed to listen on '' @ Address (From t) @ '' (Local): '' @ err)
              | Inr l \<Rightarrow> Inr (l, conn_Dial cl))
         | ExposedOnServer \<Rightarrow>
             (case conn_Listen w cl i (Address (From t)) of
                Inl err \<Rightarrow> Inl (''failed to listen on '' @ Address (From t) @ '' (Remote): '' @ err)
              | Inr r \<Rightarrow> Inr (r, net_Dial))
         | UnspecifiedDirection \<Rightarrow> Inl []))"

definition tunnel_listener :: "world \<Rightarrow> ssh_Client \<Rightarrow> nat \<times> Tunnel \<Rightarrow> net_Listener option" where
  "tunnel_listener w cl x =
     (case tunnel_setup w cl x of Inl msg \<Rightarrow> None | Inr (l, d) \<Rightarrow> Some l)"

definition tunnel_event :: "string \<Rightarrow> world \<Rightarrow> ssh_Client \<Rightarrow> nat \<times> Tunnel \<Rightarrow> event" where
  "tunnel_event name w cl x =
     (case tunnel_setup w cl x of
        Inl msg \<Rightarrow> Println (name @ '': '' @ msg)
      | Inr (l, d) \<Rightarrow> go_Forward l (Address (To (snd x))) d)"

text \<open>
  Consecutive failed attempts: every pass over the worlds \<open>ws\<close>, from the connection
  \<open>c\<close>, finds the connection not alive and ends in a \<open>connect\<close> that returns false.
\<close>

fun failed_attempts :: "duration \<Rightarrow> world list \<Rightarrow> Connection \<Rightarrow> bool" where
  "failed_attempts kii [] c = True"
| "failed_attempts kii (w # ws) c =
     (\<not> IsAlive w c (int64 (quo kii 10 * 9))
      \<and> (case reconnect w c of
            Inr (False, c') \<Rightarrow> failed_attempts kii ws (backoff c')
          | _ \<Rightarrow> False))"

section \<open>Sample inputs\<close>

text \<open>
  A world in which the hosts of the sample configuration resolve, the key file of its
  second connection exists and parses with its passphrase, the server accepts the
  session, every listen succeeds and the keepalive is answered after a millisecond.
\<close>

definition sample_world :: world where
  "sample_world =
     \<lparr>LookupHost =
        (\<lambda>h. if h = ''example.com'' \<or> h = ''db.example.com'' then [''192.0.2.1''] else []),
      ReadFile =
        (\<lambda>p. if p = ''/path/to/key.pem'' then Inr ''PEM''
             else Inl (''open '' @ p @ '': no such file or directory'')),
      ParsePrivateKey = (\<lambda>k. Inl ''ssh: this private key is passphrase protected''),
      ParsePrivateKeyWithPassphrase =
        (\<lambda>k pw. if k = ''PEM'' \<and> pw = ''MyKeyFilePassword'' then Inr (Signer 1)
                else Inl ''x509: decryption password incorrect''),
      ssh_Dial = (\<lambda>host user auths fp. Inr (Client 1)),
      net_Listen = (\<lambda>i a. Inr (Listener i)),
      conn_Listen = (\<lambda>cl i a. Inr (Listener i)),
      SendRequest = (\<lambda>cl. Reply 1000000 None),
      select_tie = False\<rparr>"

text \<open>
  The same world with a server that refuses the session; with the local port taken;
  and with the remote listener refused as well.
\<close>

definition refusing_world :: world where
  "refusing_world =
     sample_world\<lparr>ssh_Dial := \<lambda>host user auths fp.
        Inl ''dial tcp 192.0.2.1:22: connect: connection refused''\<rparr>"

definition busy_port_world :: world where
  "busy_port_world =
     sample_world\<lparr>net_Listen := \<lambda>i a.
        Inl ''listen tcp 127.0.0.1:30000: bind: address already in use''\<rparr>"

definition no_listener_world :: world where
  "no_listener_world =
     busy_port_world\<lparr>conn_Listen := \<lambda>cl i a.
        Inl ''ssh: tcpip-forward request denied by peer''\<rparr>"

text \<open>
  The second connection of \<open>sampleConfig\<close>, as the JSON decoder leaves it: a key file
  with its passphrase, one tunnel exposed on the server.
\<close>

definition sample_public_ip :: Connection where
  "sample_public_ip =
     \<lparr>Name = ''A Server With A Public IP'', Host = ''example.com:22'', Username = ''root'',
      KeyFile = ''/path/to/key.pem'', Key = [], Password = ''MyKeyFilePassword'',
      Fingerprint = ''MD5:16:27:ac:a5:76:28:2d:36:63:1b:56:4d:eb:df:a6:48'',
      KeepAliveInterval = Duration 0, MaxReconnectDelay = Duration 0,
      Tunnels = [\<lparr>From = \<lparr>Side = ''Remote'', Address = ''0.0.0.0:80''\<rparr>,
                  To = \<lparr>Side = ''Local'', Address = ''127.0.0.1:80''\<rparr>,
                  direction = UnspecifiedDirection\<rparr>],
      status = None, auth = None, conn = None, listeners = [], reconnectDelay = 0,
      trace = []\<rparr>"

text \<open>
  The first connection of the README's sample: a password, a host without port, one
  tunnel exposed locally (its target written \<open>127.0.0.1:3306\<close>).
\<close>

definition sample_database :: Connection where
  "sample_database =
     \<lparr>Name = ''My Database Server'', Host = ''db.example.com'', Username = ''root'',
      KeyFile = [], Key = [], Password = ''P@ssw0rd'',
      Fingerprint = ''SHA256:nThbg6kXUpJWGl7E1IGOCspRomTxdCARLviKw6E5SY8'',
      KeepAliveInterval = Duration (30 * Second), MaxReconnectDelay = Duration (5 * Minute),
      Tunnels = [\<lparr>From = \<lparr>Side = ''Local'', Address = ''127.0.0.1:30000''\<rparr>,
                  To = \<lparr>Side = ''Remote'', Address = ''127.0.0.1:3306''\<rparr>,
                  direction = UnspecifiedDirection\<rparr>],
      status = None, auth = None, conn = None, listeners = [], reconnectDelay = 0,
      trace = []\<rparr>"

text \<open>
  That connection with a tunnel whose two ends are both tagged Local, and with one
  tunnel in each direction.
\<close>

definition sample_local_only :: Connection where
  "sample_local_only =
     sample_database
       \<lparr>Tunnels := [\<lparr>From = \<lparr>Side = ''Local'', Address = ''127.0.0.1:30000''\<rparr>,
                     To = \<lparr>Side = ''Local'', Address = ''127.0.0.1:3306''\<rparr>,
                     direction = UnspecifiedDirection\<rparr>]\<rparr>"

definition sample_two_tunnels :: Connection where
  "sample_two_tunnels =
     sample_database
       \<lparr>Host := ''db.example.com:22'',
        Tunnels := [\<lparr>From = \<lparr>Side = ''Local'', Address = ''127.0.0.1:30000''\<rparr>,
                     To = \<lparr>Side = ''Remote'', Address = ''127.0.0.1:3306''\<rparr>,
                     direction = UnspecifiedDirection\<rparr>,
                    \<lparr>From = \<lparr>Side = ''Remote'', Address = ''0.0.0.0:80''\<rparr>,
                     To = \<lparr>Side = ''Local'', Address = ''127.0.0.1:80''\<rparr>,
                     direction = UnspecifiedDirection\<rparr>]\<rparr>"

section \<open>Properties of validation\<close>

text \<open>
  Which fields each part of \<open>validate\<close> may change, and that the issue of an early return
  is never the empty string (so that \<open>issue != ""\<close> does tell the early returns from the
  final \<open>return ""\<close>).
\<close>

lemma validate_defaults_frame:
  "\<exists>k m. validate_defaults c = c\<lparr>KeepAliveInterval := k, MaxReconnectDelay := m\<rparr>"
proof -
  have "validate_defaults c =
     c\<lparr>KeepAliveInterval := KeepAliveInterval (validate_defaults c),
       MaxReconnectDelay := MaxReconnectDelay (validate_defaults c)\<rparr>"
    by (simp add: validate_defaults_def Let_def)
  then show ?thesis by blast
qed

lemma validate_defaults_Max:
  "Unwrap (MaxReconnectDelay c) \<noteq> 0 \<Longrightarrow>
     MaxReconnectDelay (validate_defaults c) = MaxReconnectDelay c"
  by (simp add: validate_defaults_def Let_def)

lemma validate_host_frame:
  "validate_host w c = (r, c') \<Longrightarrow> \<exists>h. c' = c\<lparr>Host := h\<rparr>"
  by (auto simp: validate_host_def split: sum.splits prod.splits if_splits
           intro: exI [of _ "Host c"])

lemma validate_auth_frame:
  "validate_auth w c = (r, c') \<Longrightarrow> \<exists>a. c' = c\<lparr>auth := a\<rparr>"
  by (auto simp: validate_auth_def split: sum.splits prod.splits if_splits option.splits
           intro: exI [of _ "auth c"])

lemma validate_host_issue: "validate_host w c = (Some issue, c') \<Longrightarrow> issue \<noteq> []"
  by (auto simp: validate_host_def split: sum.splits prod.splits if_splits)

lemma validate_auth_issue: "validate_auth w c = (Some issue, c') \<Longrightarrow> issue \<noteq> []"
  by (auto simp: validate_auth_def split: sum.splits prod.splits if_splits option.splits)

lemma validate_addresses_issue: "validate_addresses n t = Some issue \<Longrightarrow> issue \<noteq> []"
  by (auto simp: validate_addresses_def split: sum.splits prod.splits if_splits)

lemma validate_tunnel_issue: "validate_tunnel n t = (Some issue, t') \<Longrightarrow> issue \<noteq> []"
  by (auto simp: validate_tunnel_def validate_addresses_issue split: sum.splits if_splits)

lemma validate_tunnels_issue: "validate_tunnels n ts = (Some issue, ts') \<Longrightarrow> issue \<noteq> []"
  by (induction ts arbitrary: ts')
     (auto simp: validate_tunnel_issue split: prod.splits option.splits)


text \<open>The loop over the tunnels, one tunnel at a time and then by position.\<close>

lemma validate_tunnel_ends:
  "From (snd (validate_tunnel n t)) = From t \<and> To (snd (validate_tunnel n t)) = To t"
  by (simp add: validate_tunnel_def)

lemma validate_tunnel_None:
  "validate_tunnel n t = (None, t') \<Longrightarrow>
     (Local_to_Remote t \<and> direction t' = ExposedLocally)
     \<or> (Remote_to_Local t \<and> \<not> Local_to_Remote t \<and> direction t' = ExposedOnServer)"
  by (auto simp: validate_tunnel_def Local_to_Remote_def Remote_to_Local_def split: if_splits)

lemma validate_tunnel_other:
  "\<not> Local_to_Remote t \<Longrightarrow> \<not> Remote_to_Local t \<Longrightarrow>
     \<exists>issue. validate_tunnel n t = (Some issue, t)"
  by (auto simp: validate_tunnel_def Local_to_Remote_def Remote_to_Local_def)

lemma validate_tunnels_length: "length (snd (validate_tunnels n ts)) = length ts"
  by (induction ts) (auto split: prod.splits option.splits)

lemma validate_tunnels_ends:
  "i < length ts \<Longrightarrow>
     From (snd (validate_tunnels n ts) ! i) = From (ts ! i)
     \<and> To (snd (validate_tunnels n ts) ! i) = To (ts ! i)"
proof (induction ts arbitrary: i)
  case Nil
  then show ?case by simp
next
  case (Cons t ts)
  obtain r t' where vt: "validate_tunnel n t = (r, t')" by (cases "validate_tunnel n t")
  have t': "From t' = From t \<and> To t' = To t"
    using validate_tunnel_ends [of n t] vt by simp
  show ?case
    using Cons vt t' by (cases i; cases r) (auto split: prod.splits)
qed

lemma validate_tunnels_None:
  "validate_tunnels n ts = (None, ts') \<Longrightarrow> i < length ts \<Longrightarrow>
     (Local_to_Remote (ts ! i) \<and> direction (ts' ! i) = ExposedLocally)
     \<or> (Remote_to_Local (ts ! i) \<and> \<not> Local_to_Remote (ts ! i)
         \<and> direction (ts' ! i) = ExposedOnServer)"
proof (induction ts arbitrary: i ts')
  case Nil
  then show ?case by simp
next
  case (Cons t ts)
  obtain r t' where vt: "validate_tunnel n t = (r, t')" by (cases "validate_tunnel n t")
  with Cons.prems have r: "r = None" by (cases r) auto
  obtain r2 ts2 where vts: "validate_tunnels n ts = (r2, ts2)" by (cases "validate_tunnels n ts")
  with Cons.prems vt r have eq: "r2 = None" "ts' = t' # ts2" by auto
  show ?case
  proof (cases i)
    case 0
    then show ?thesis using validate_tunnel_None [of n t t'] vt r eq by simp
  next
    case (Suc j)
    then show ?thesis using Cons.IH [of ts2 j] vts eq Cons.prems by simp
  qed
qed

lemma validate_tunnels_other:
  "i < length ts \<Longrightarrow> \<not> Local_to_Remote (ts ! i) \<Longrightarrow> \<not> Remote_to_Local (ts ! i) \<Longrightarrow>
     fst (validate_tunnels n ts) \<noteq> None
     \<and> direction (snd (validate_tunnels n ts) ! i) = direction (ts ! i)"
proof (induction ts arbitrary: i)
  case Nil
  then show ?case by simp
next
  case (Cons t ts)
  obtain r t' where vt: "validate_tunnel n t = (r, t')" by (cases "validate_tunnel n t")
  show ?case
  proof (cases i)
    case 0
    then show ?thesis using validate_tunnel_other [of t n] Cons.prems by auto
  next
    case (Suc j)
    then show ?thesis
      using Cons.IH [of j] Cons.prems vt by (cases r) (auto split: prod.splits)
  qed
qed

text \<open>
  \<open>validate\<close> either returns before the loop over the tunnels, with an issue and the
  tunnels as they were, or returns what that loop returns.
\<close>

lemma validate_rest_cases:
  assumes "validate_rest w c = (issue, c')"
  shows "(\<exists>a ts. c' = c\<lparr>auth := a, Tunnels := ts\<rparr>)
     \<and> ((issue \<noteq> [] \<and> Tunnels c' = Tunnels c)
        \<or> (\<exists>r. validate_tunnels (Name c) (Tunnels c) = (r, Tunnels c')
               \<and> (case r of None \<Rightarrow> issue = [] | Some i \<Rightarrow> issue = i \<and> i \<noteq> [])))"
proof -
  obtain r1 c1 where va: "validate_auth w c = (r1, c1)" by (cases "validate_auth w c")
  obtain a where f1: "c1 = c\<lparr>auth := a\<rparr>" using validate_auth_frame [OF va] by blast
  show ?thesis
  proof (cases r1)
    case (Some i)
    then have "issue = i" "c' = c1" using assms va by (simp_all add: validate_rest_def)
    moreover have "i \<noteq> []" using validate_auth_issue va Some by blast
    moreover have "c1 = c\<lparr>auth := a, Tunnels := Tunnels c\<rparr>" using f1 by simp
    moreover have "Tunnels c1 = Tunnels c" using f1 by simp
    ultimately show ?thesis by blast
  next
    case None
    obtain r2 ts where vt: "validate_tunnels (Name c) (Tunnels c) = (r2, ts)"
      by (cases "validate_tunnels (Name c) (Tunnels c)")
    have c': "c' = c\<lparr>auth := a, Tunnels := ts\<rparr>"
      and i: "issue = (case r2 of None \<Rightarrow> [] | Some i \<Rightarrow> i)"
      using assms va None vt f1 by (auto simp: validate_rest_def split: option.splits)
    have "case r2 of None \<Rightarrow> issue = [] | Some i \<Rightarrow> issue = i \<and> i \<noteq> []"
      using i validate_tunnels_issue [of "Name c" "Tunnels c" _ ts] vt
      by (auto split: option.splits)
    then show ?thesis using c' vt by auto
  qed
qed

lemma validate_cases:
  assumes "validate w c = (issue, c')"
  shows "(\<exists>k m h a ts. c' = c\<lparr>KeepAliveInterval := k, MaxReconnectDelay := m, Host := h,
                                 auth := a, Tunnels := ts\<rparr>)
     \<and> ((issue \<noteq> [] \<and> Tunnels c' = Tunnels c)
        \<or> (\<exists>r. validate_tunnels (Name c) (Tunnels c) = (r, Tunnels c')
               \<and> (case r of None \<Rightarrow> issue = [] | Some i \<Rightarrow> issue = i \<and> i \<noteq> [])))"
proof -
  obtain k m where d: "validate_defaults c = c\<lparr>KeepAliveInterval := k, MaxReconnectDelay := m\<rparr>"
    using validate_defaults_frame by blast
  have c: "c = c\<lparr>KeepAliveInterval := KeepAliveInterval c,
                 MaxReconnectDelay := MaxReconnectDelay c, Host := Host c,
                 auth := auth c, Tunnels := Tunnels c\<rparr>"
    by simp
  consider
      (early) "issue \<noteq> []" "c' = c"
    | (both) "issue \<noteq> []" "c' = validate_defaults c"
    | (host) i where "validate_host w (validate_defaults c) = (Some i, c')" "issue = i"
    | (rest) c2 where "validate_host w (validate_defaults c) = (None, c2)"
        "validate_rest w c2 = (issue, c')"
    using assms
    by (auto simp: validate_def Let_def split: if_splits prod.splits option.splits)
  then show ?thesis
  proof cases
    case early
    then show ?thesis using c by blast
  next
    case both
    have "validate_defaults c = c\<lparr>KeepAliveInterval := k, MaxReconnectDelay := m,
             Host := Host c, auth := auth c, Tunnels := Tunnels c\<rparr>"
      using d by simp
    moreover have "Tunnels (validate_defaults c) = Tunnels c" using d by simp
    ultimately show ?thesis using both by blast
  next
    case host
    obtain h where h: "c' = (validate_defaults c)\<lparr>Host := h\<rparr>"
      using validate_host_frame [OF host(1)] by blast
    have "c' = c\<lparr>KeepAliveInterval := k, MaxReconnectDelay := m,
             Host := h, auth := auth c, Tunnels := Tunnels c\<rparr>"
      using h d by simp
    moreover have "Tunnels c' = Tunnels c" using h d by simp
    moreover have "issue \<noteq> []" using validate_host_issue host by blast
    ultimately show ?thesis by blast
  next
    case rest
    obtain h where h: "c2 = (validate_defaults c)\<lparr>Host := h\<rparr>"
      using validate_host_frame [OF rest(1)] by blast
    have n: "Name c2 = Name c" "Tunnels c2 = Tunnels c" using h d by simp_all
    obtain a ts where r: "c' = c2\<lparr>auth := a, Tunnels := ts\<rparr>"
      using validate_rest_cases [OF rest(2)] by blast
    have "c' = c\<lparr>KeepAliveInterval := k, MaxReconnectDelay := m,
             Host := h, auth := a, Tunnels := ts\<rparr>"
      using r h d by simp
    then have A: "\<exists>k m h a ts. c' = c\<lparr>KeepAliveInterval := k, MaxReconnectDelay := m,
             Host := h, auth := a, Tunnels := ts\<rparr>"
      by blast
    have B: "(issue \<noteq> [] \<and> Tunnels c' = Tunnels c)
        \<or> (\<exists>r. validate_tunnels (Name c) (Tunnels c) = (r, Tunnels c')
               \<and> (case r of None \<Rightarrow> issue = [] | Some i \<Rightarrow> issue = i \<and> i \<noteq> []))"
      using conjunct2 [OF validate_rest_cases [OF rest(2)]] n by simp
    show ?thesis using A B by (rule conjI)
  qed
qed

lemma validate_Max:
  "Unwrap (MaxReconnectDelay c) \<noteq> 0 \<Longrightarrow>
     MaxReconnectDelay (snd (validate w c)) = MaxReconnectDelay c"
proof -
  assume nz: "Unwrap (MaxReconnectDelay c) \<noteq> 0"
  have d: "MaxReconnectDelay (validate_defaults c) = MaxReconnectDelay c"
    using nz by (simp add: validate_defaults_Max)
  have h: "MaxReconnectDelay (snd (validate_host w x)) = MaxReconnectDelay x" for x
    using validate_host_frame [of w x "fst (validate_host w x)" "snd (validate_host w x)"]
    by auto
  have r: "MaxReconnectDelay (snd (validate_rest w x)) = MaxReconnectDelay x" for x
    using validate_rest_cases [of w x "fst (validate_rest w x)" "snd (validate_rest w x)"]
    by auto
  show ?thesis
    using d h [of "validate_defaults c"] r [of "snd (validate_host w (validate_defaults c))"]
    by (auto simp: validate_def Let_def split: prod.splits option.splits)
qed

text \<open>Validation of the sample connections, by evaluation.\<close>

lemma SplitHostPort_samples:
  "SplitHostPort ''example.com:22'' = Inr (''example.com'', ''22'')"
  "SplitHostPort ''0.0.0.0:80'' = Inr (''0.0.0.0'', ''80'')"
  "SplitHostPort ''127.0.0.1:80'' = Inr (''127.0.0.1'', ''80'')"
  "SplitHostPort ''127.0.0.1:30000'' = Inr (''127.0.0.1'', ''30000'')"
  "SplitHostPort ''127.0.0.1:3306'' = Inr (''127.0.0.1'', ''3306'')"
  "SplitHostPort ''db.example.com:22'' = Inr (''db.example.com'', ''22'')"
  "SplitHostPort ''db.example.com'' = Inl ''address db.example.com: missing port in address''"
  by (simp_all add: SplitHostPort_def SplitHostPort_tail_def LastIndexByteString_def addrErr_def)

lemmas validate_defs =
  validate_def validate_defaults_def validate_host_def validate_rest_def
  validate_auth_def validate_tunnel_def validate_addresses_def JoinHostPort_def

lemma validate_sample_public_ip:
  "validate sample_world sample_public_ip =
     ([], sample_public_ip
            \<lparr>KeepAliveInterval := Duration Minute, MaxReconnectDelay := Duration Minute,
             auth := Some (ssh_PublicKeys (Signer 1)),
             Tunnels := [\<lparr>From = \<lparr>Side = ''Remote'', Address = ''0.0.0.0:80''\<rparr>,
                          To = \<lparr>Side = ''Local'', Address = ''127.0.0.1:80''\<rparr>,
                          direction = ExposedOnServer\<rparr>]\<rparr>)"
  by (simp add: validate_defs sample_world_def sample_public_ip_def SplitHostPort_samples)

lemma validate_sample_database:
  "validate sample_world sample_database =
     ([], sample_database
            \<lparr>Host := ''db.example.com:22'',
             auth := Some (ssh_Password ''P@ssw0rd''),
             Tunnels := [\<lparr>From = \<lparr>Side = ''Local'', Address = ''127.0.0.1:30000''\<rparr>,
                          To = \<lparr>Side = ''Remote'', Address = ''127.0.0.1:3306''\<rparr>,
                          direction = ExposedLocally\<rparr>]\<rparr>)"
  by (simp add: validate_defs sample_world_def sample_database_def SplitHostPort_samples
        Second_def Minute_def)

text \<open>
  C3. Whatever \<open>validate\<close> returns, it leaves the number of tunnels and their endpoints as
  they were. When it returns no issue, every tunnel is either Local to Remote with
  direction \<open>ExposedLocally\<close> or Remote to Local with direction \<open>ExposedOnServer\<close>. A
  tunnel with any other pair of side tags makes \<open>validate\<close> return an issue, and the
  direction of that tunnel is left as it was. The direction is assigned as soon as the
  loop reaches a tunnel with both addresses filled in, before the addresses are parsed.
\<close>

theorem validate_direction:
  assumes "validate w c = (issue, c')"
  shows "length (Tunnels c') = length (Tunnels c)
     \<and> (\<forall>i < length (Tunnels c).
          From (Tunnels c' ! i) = From (Tunnels c ! i)
          \<and> To (Tunnels c' ! i) = To (Tunnels c ! i)
          \<and> (issue = [] \<longrightarrow>
               (Local_to_Remote (Tunnels c ! i) \<and> direction (Tunnels c' ! i) = ExposedLocally)
               \<or> (Remote_to_Local (Tunnels c ! i) \<and> direction (Tunnels c' ! i) = ExposedOnServer))
          \<and> (\<not> Local_to_Remote (Tunnels c ! i) \<and> \<not> Remote_to_Local (Tunnels c ! i) \<longrightarrow>
               issue \<noteq> [] \<and> direction (Tunnels c' ! i) = direction (Tunnels c ! i)))
     \<and> (Address (From t) \<noteq> [] \<and> Address (To t) \<noteq> [] \<longrightarrow>
          (Local_to_Remote t \<longrightarrow> direction (snd (validate_tunnel n t)) = ExposedLocally)
          \<and> (Remote_to_Local t \<longrightarrow> direction (snd (validate_tunnel n t)) = ExposedOnServer))"
proof -
  have body: "Address (From t) \<noteq> [] \<and> Address (To t) \<noteq> [] \<longrightarrow>
          (Local_to_Remote t \<longrightarrow> direction (snd (validate_tunnel n t)) = ExposedLocally)
          \<and> (Remote_to_Local t \<longrightarrow> direction (snd (validate_tunnel n t)) = ExposedOnServer)"
    by (auto simp: validate_tunnel_def Local_to_Remote_def Remote_to_Local_def)
  from validate_cases [OF assms]
  consider (kept) "issue \<noteq> []" "Tunnels c' = Tunnels c"
    | (loop) r where "validate_tunnels (Name c) (Tunnels c) = (r, Tunnels c')"
        "case r of None \<Rightarrow> issue = [] | Some i \<Rightarrow> issue = i \<and> i \<noteq> []"
    by blast
  then have "length (Tunnels c') = length (Tunnels c)
     \<and> (\<forall>i < length (Tunnels c).
          From (Tunnels c' ! i) = From (Tunnels c ! i)
          \<and> To (Tunnels c' ! i) = To (Tunnels c ! i)
          \<and> (issue = [] \<longrightarrow>
               (Local_to_Remote (Tunnels c ! i) \<and> direction (Tunnels c' ! i) = ExposedLocally)
               \<or> (Remote_to_Local (Tunnels c ! i) \<and> direction (Tunnels c' ! i) = ExposedOnServer))
          \<and> (\<not> Local_to_Remote (Tunnels c ! i) \<and> \<not> Remote_to_Local (Tunnels c ! i) \<longrightarrow>
               issue \<noteq> [] \<and> direction (Tunnels c' ! i) = direction (Tunnels c ! i)))"
  proof cases
    case kept
    then show ?thesis by simp
  next
    case loop
    have ts': "Tunnels c' = snd (validate_tunnels (Name c) (Tunnels c))"
      and r: "r = fst (validate_tunnels (Name c) (Tunnels c))"
      using loop(1) by simp_all
    have len: "length (Tunnels c') = length (Tunnels c)"
      using ts' validate_tunnels_length by simp
    have "From (Tunnels c' ! i) = From (Tunnels c ! i)
          \<and> To (Tunnels c' ! i) = To (Tunnels c ! i)
          \<and> (issue = [] \<longrightarrow>
               (Local_to_Remote (Tunnels c ! i) \<and> direction (Tunnels c' ! i) = ExposedLocally)
               \<or> (Remote_to_Local (Tunnels c ! i) \<and> direction (Tunnels c' ! i) = ExposedOnServer))
          \<and> (\<not> Local_to_Remote (Tunnels c ! i) \<and> \<not> Remote_to_Local (Tunnels c ! i) \<longrightarrow>
               issue \<noteq> [] \<and> direction (Tunnels c' ! i) = direction (Tunnels c ! i))"
      if i: "i < length (Tunnels c)" for i
    proof -
      have ends: "From (Tunnels c' ! i) = From (Tunnels c ! i)
          \<and> To (Tunnels c' ! i) = To (Tunnels c ! i)"
        using validate_tunnels_ends [OF i, of "Name c"] ts' by simp
      have ok: "(Local_to_Remote (Tunnels c ! i) \<and> direction (Tunnels c' ! i) = ExposedLocally)
               \<or> (Remote_to_Local (Tunnels c ! i) \<and> direction (Tunnels c' ! i) = ExposedOnServer)"
        if "issue = []"
      proof -
        have "r = None" using loop(2) that by (cases r) auto
        then show ?thesis using validate_tunnels_None [OF _ i, of "Name c" "Tunnels c'"] loop(1)
          by auto
      qed
      have other: "issue \<noteq> [] \<and> direction (Tunnels c' ! i) = direction (Tunnels c ! i)"
        if "\<not> Local_to_Remote (Tunnels c ! i)" "\<not> Remote_to_Local (Tunnels c ! i)"
        using validate_tunnels_other [OF i that, of "Name c"] ts' r loop(2)
        by (cases r) auto
      show ?thesis using ends ok other by blast
    qed
    then show ?thesis using len by blast
  qed
  then show ?thesis using body by blast
qed

theorem validate_direction_witness:
  "validate sample_world sample_public_ip
     = ([], snd (validate sample_world sample_public_ip))
   \<and> Remote_to_Local (Tunnels sample_public_ip ! 0)
   \<and> direction (Tunnels (snd (validate sample_world sample_public_ip)) ! 0) = ExposedOnServer
   \<and> Local_to_Remote (Tunnels sample_database ! 0)
   \<and> direction (Tunnels (snd (validate sample_world sample_database)) ! 0) = ExposedLocally
   \<and> \<not> Local_to_Remote (Tunnels sample_local_only ! 0)
   \<and> \<not> Remote_to_Local (Tunnels sample_local_only ! 0)
   \<and> fst (validate sample_world sample_local_only) \<noteq> []
   \<and> direction (Tunnels (snd (validate sample_world sample_local_only)) ! 0)
       = UnspecifiedDirection"
proof -
  have a: "validate sample_world sample_public_ip
     = ([], snd (validate sample_world sample_public_ip))"
    by (simp add: validate_sample_public_ip)
  have b: "validate sample_world sample_database
     = ([], snd (validate sample_world sample_database))"
    by (simp add: validate_sample_database)
  have c: "validate sample_world sample_local_only
     = (fst (validate sample_world sample_local_only),
        snd (validate sample_world sample_local_only))"
    by simp
  have r: "Remote_to_Local (Tunnels sample_public_ip ! 0)"
    "\<not> Local_to_Remote (Tunnels sample_public_ip ! 0)"
    "Local_to_Remote (Tunnels sample_database ! 0)"
    "\<not> Remote_to_Local (Tunnels sample_database ! 0)"
    "\<not> Local_to_Remote (Tunnels sample_local_only ! 0)"
    "\<not> Remote_to_Local (Tunnels sample_local_only ! 0)"
    by (simp_all add: Remote_to_Local_def Local_to_Remote_def sample_public_ip_def
          sample_database_def sample_local_only_def)
  have l: "0 < length (Tunnels sample_public_ip)" "0 < length (Tunnels sample_database)"
    "0 < length (Tunnels sample_local_only)"
    "direction (Tunnels sample_local_only ! 0) = UnspecifiedDirection"
    by (simp_all add: sample_public_ip_def sample_database_def sample_local_only_def)
  have other: "fst (validate sample_world sample_local_only) \<noteq> []
     \<and> direction (Tunnels (snd (validate sample_world sample_local_only)) ! 0)
         = UnspecifiedDirection"
    using validate_direction [OF c] r(5,6) l(3,4) by metis
  show ?thesis
    using validate_direction [OF a] validate_direction [OF b] a r l other by blast
qed

lemma IndexByteString_None: "IndexByteString s b = None \<longleftrightarrow> b \<notin> set s"
  by (induction s) auto

text \<open>
  C10. A connection that passes the checks before it and whose \<open>Host\<close> does not split
  into host and port is not rejected for that: \<open>validate\<close> leaves with \<open>Host\<close> joined to
  port 22 (\<open>host:22\<close> when the host has no colon). The host as it was given is looked up;
  when that gives no address the issue is \<open>failed to resolve host\<close>, and otherwise
  validation goes on with the credentials and the tunnels of the rewritten connection.
\<close>

theorem validate_default_port:
  assumes "SplitHostPort (Host c) = Inl err"
    and "Name c \<noteq> []" "Host c \<noteq> []" "Username c \<noteq> []" "Tunnels c \<noteq> []"
    and "\<not> (KeyFile c \<noteq> [] \<and> Key c \<noteq> [])"
  shows "Host (snd (validate w c)) = JoinHostPort (Host c) ''22''
     \<and> (CHR '':'' \<notin> set (Host c) \<longrightarrow> JoinHostPort (Host c) ''22'' = Host c @ '':22'')
     \<and> (LookupHost w (Host c) = [] \<longrightarrow>
          validate w c =
            (''failed to resolve host '' @ JoinHostPort (Host c) ''22'' @ '' for connection '' @ Name c,
             (validate_defaults c)\<lparr>Host := JoinHostPort (Host c) ''22''\<rparr>))
     \<and> (LookupHost w (Host c) \<noteq> [] \<longrightarrow>
          validate w c =
            validate_rest w ((validate_defaults c)\<lparr>Host := JoinHostPort (Host c) ''22''\<rparr>))"
proof -
  obtain k m where d: "validate_defaults c = c\<lparr>KeepAliveInterval := k, MaxReconnectDelay := m\<rparr>"
    using validate_defaults_frame by blast
  let ?c2 = "(validate_defaults c)\<lparr>Host := JoinHostPort (Host c) ''22''\<rparr>"
  have host: "validate_host w (validate_defaults c) =
      (if LookupHost w (Host c) = []
       then Some (''failed to resolve host '' @ JoinHostPort (Host c) ''22''
                  @ '' for connection '' @ Name c)
       else None, ?c2)"
    using assms(1) d by (simp add: validate_host_def)
  have pre: "validate w c =
      (case validate_host w (validate_defaults c) of
         (Some issue, c2) \<Rightarrow> (issue, c2) | (None, c2) \<Rightarrow> validate_rest w c2)"
    using assms(2-6) d by (auto simp: validate_def Let_def)
  have unresolved: "LookupHost w (Host c) = [] \<longrightarrow>
          validate w c =
            (''failed to resolve host '' @ JoinHostPort (Host c) ''22'' @ '' for connection '' @ Name c, ?c2)"
    using pre host by simp
  have resolved: "LookupHost w (Host c) \<noteq> [] \<longrightarrow> validate w c = validate_rest w ?c2"
    using pre host by simp
  have rest: "Host (snd (validate_rest w ?c2)) = Host ?c2"
    using validate_rest_cases [of w ?c2 "fst (validate_rest w ?c2)" "snd (validate_rest w ?c2)"]
    by auto
  have h: "Host (snd (validate w c)) = JoinHostPort (Host c) ''22''"
    using unresolved resolved rest by (cases "LookupHost w (Host c) = []") simp_all
  have j: "CHR '':'' \<notin> set (Host c) \<longrightarrow> JoinHostPort (Host c) ''22'' = Host c @ '':22''"
    by (simp add: JoinHostPort_def IndexByteString_None)
  show ?thesis using h j unresolved resolved by blast
qed

theorem validate_default_port_witness:
  "SplitHostPort (Host sample_database)
     = Inl ''address db.example.com: missing port in address''
   \<and> Host (snd (validate sample_world sample_database)) = ''db.example.com:22''
   \<and> fst (validate sample_world sample_database) = []
   \<and> fst (validate (sample_world\<lparr>LookupHost := \<lambda>h. []\<rparr>) sample_database)
       = ''failed to resolve host db.example.com:22 for connection My Database Server''"
proof -
  have s: "SplitHostPort (Host sample_database)
     = Inl ''address db.example.com: missing port in address''"
    by (simp add: sample_database_def SplitHostPort_samples)
  have p: "Name sample_database \<noteq> []" "Host sample_database \<noteq> []"
    "Username sample_database \<noteq> []" "Tunnels sample_database \<noteq> []"
    "\<not> (KeyFile sample_database \<noteq> [] \<and> Key sample_database \<noteq> [])"
    by (simp_all add: sample_database_def)
  have colon: "CHR '':'' \<notin> set (Host sample_database)"
    by (simp add: sample_database_def)
  have unresolved:
    "LookupHost (sample_world\<lparr>LookupHost := \<lambda>h. []\<rparr>) (Host sample_database) = []"
    by simp
  have strings: "Host sample_database @ '':22'' = ''db.example.com:22''"
    "Name sample_database = ''My Database Server''"
    by (simp_all add: sample_database_def)
  note here = validate_default_port [OF s p, of sample_world]
  note there = validate_default_port [OF s p, of "sample_world\<lparr>LookupHost := \<lambda>h. []\<rparr>"]
  have j: "JoinHostPort (Host sample_database) ''22'' = ''db.example.com:22''"
    using here colon strings(1) by metis
  have h: "Host (snd (validate sample_world sample_database)) = ''db.example.com:22''"
    using here j by metis
  have ok: "fst (validate sample_world sample_database) = []"
    by (simp add: validate_sample_database)
  have "fst (validate (sample_world\<lparr>LookupHost := \<lambda>h. []\<rparr>) sample_database)
      = ''failed to resolve host '' @ JoinHostPort (Host sample_database) ''22''
        @ '' for connection '' @ Name sample_database"
    using there unresolved by (metis fst_conv)
  then have failed: "fst (validate (sample_world\<lparr>LookupHost := \<lambda>h. []\<rparr>) sample_database)
       = ''failed to resolve host db.example.com:22 for connection My Database Server''"
    by (simp add: j strings(2))
  show ?thesis using s h ok failed by blast
qed

text \<open>
  C4, as stated, fails: the second connection of \<open>sampleConfig\<close> has both a key file and
  a password, and it passes \<open>validate\<close> and start-up.
\<close>

theorem credentials_counterexample:
  "KeyFile sample_public_ip \<noteq> [] \<and> Password sample_public_ip \<noteq> []
   \<and> fst (validate sample_world sample_public_ip) = []
   \<and> isl (Start sample_world [sample_public_ip]) = False"
  by (simp add: validate_sample_public_ip Start_def) (simp add: sample_public_ip_def)

text \<open>
  C4, amended. Only the two key sources exclude each other: a connection with both
  \<open>KeyFile\<close> and \<open>Key\<close> filled in gets an issue from \<open>validate\<close>, and start-up fails for
  every configuration that holds it. A password next to one key source is no conflict:
  it is the passphrase the key is parsed with, and when the key parses with it the check
  of the credentials passes, with the key as the authentication method.
\<close>

theorem validate_credentials:
  "(KeyFile c \<noteq> [] \<and> Key c \<noteq> [] \<longrightarrow>
      fst (validate w c) \<noteq> [] \<and> (\<forall>cs cs'. isl (Start w (cs @ c # cs'))))
   \<and> (KeyFile c = [] \<and> Key c \<noteq> [] \<and> Password c \<noteq> []
       \<and> ParsePrivateKeyWithPassphrase w (Key c) (Password c) = Inr signer \<longrightarrow>
         validate_auth w c = (None, c\<lparr>auth := Some (ssh_PublicKeys signer)\<rparr>))
   \<and> (KeyFile c \<noteq> [] \<and> Key c = [] \<and> Password c \<noteq> [] \<and> ReadFile w (KeyFile c) = Inr data
       \<and> ParsePrivateKeyWithPassphrase w data (Password c) = Inr signer \<longrightarrow>
         validate_auth w c = (None, c\<lparr>auth := Some (ssh_PublicKeys signer)\<rparr>))"
proof -
  have both: "fst (validate w c) \<noteq> []" if "KeyFile c \<noteq> []" "Key c \<noteq> []"
  proof -
    obtain k m where d: "validate_defaults c = c\<lparr>KeepAliveInterval := k, MaxReconnectDelay := m\<rparr>"
      using validate_defaults_frame by blast
    show ?thesis using that d by (simp add: validate_def Let_def)
  qed
  have all: "isl (validate_all w (cs @ c # cs'))" if "fst (validate w c) \<noteq> []" for cs cs'
    using that by (induction cs) (auto split: prod.splits sum.splits)
  have start: "isl (Start w (cs @ c # cs'))" if "fst (validate w c) \<noteq> []" for cs cs'
    using all [OF that] by (simp add: Start_def)
  have key: "validate_auth w c = (None, c\<lparr>auth := Some (ssh_PublicKeys signer)\<rparr>)"
    if "KeyFile c = []" "Key c \<noteq> []" "Password c \<noteq> []"
      "ParsePrivateKeyWithPassphrase w (Key c) (Password c) = Inr signer"
    using that by (simp add: validate_auth_def)
  have keyfile: "validate_auth w c = (None, c\<lparr>auth := Some (ssh_PublicKeys signer)\<rparr>)"
    if "KeyFile c \<noteq> []" "ReadFile w (KeyFile c) = Inr data" "Password c \<noteq> []"
      "ParsePrivateKeyWithPassphrase w data (Password c) = Inr signer"
    using that by (simp add: validate_auth_def)
  show ?thesis using both start key keyfile by blast
qed

theorem validate_credentials_witness:
  "KeyFile (sample_public_ip\<lparr>Key := ''PEM''\<rparr>) \<noteq> [] \<and> Key (sample_public_ip\<lparr>Key := ''PEM''\<rparr>) \<noteq> []
   \<and> fst (validate sample_world (sample_public_ip\<lparr>Key := ''PEM''\<rparr>))
       = ''connection A Server With A Public IP has both KeyFile and Key set''
   \<and> isl (Start sample_world [sample_database, sample_public_ip\<lparr>Key := ''PEM''\<rparr>])
   \<and> validate_auth sample_world sample_public_ip
       = (None, sample_public_ip\<lparr>auth := Some (ssh_PublicKeys (Signer 1))\<rparr>)
   \<and> validate_auth sample_world (sample_public_ip\<lparr>KeyFile := [], Key := ''PEM''\<rparr>)
       = (None, sample_public_ip\<lparr>KeyFile := [], Key := ''PEM'',
                                  auth := Some (ssh_PublicKeys (Signer 1))\<rparr>)"
proof -
  have k: "KeyFile (sample_public_ip\<lparr>Key := ''PEM''\<rparr>) \<noteq> []"
    "Key (sample_public_ip\<lparr>Key := ''PEM''\<rparr>) \<noteq> []"
    by (simp_all add: sample_public_ip_def)
  have v: "fst (validate sample_world (sample_public_ip\<lparr>Key := ''PEM''\<rparr>))
       = ''connection A Server With A Public IP has both KeyFile and Key set''"
    by (simp add: validate_def validate_defaults_def sample_public_ip_def)
  have f: "KeyFile sample_public_ip \<noteq> [] \<and> Key sample_public_ip = []
      \<and> Password sample_public_ip \<noteq> []
      \<and> ReadFile sample_world (KeyFile sample_public_ip) = Inr ''PEM''
      \<and> ParsePrivateKeyWithPassphrase sample_world ''PEM'' (Password sample_public_ip)
          = Inr (Signer 1)"
    by (simp add: sample_world_def sample_public_ip_def)
  have i: "KeyFile (sample_public_ip\<lparr>KeyFile := [], Key := ''PEM''\<rparr>) = []
      \<and> Key (sample_public_ip\<lparr>KeyFile := [], Key := ''PEM''\<rparr>) \<noteq> []
      \<and> Password (sample_public_ip\<lparr>KeyFile := [], Key := ''PEM''\<rparr>) \<noteq> []
      \<and> ParsePrivateKeyWithPassphrase sample_world
            (Key (sample_public_ip\<lparr>KeyFile := [], Key := ''PEM''\<rparr>))
            (Password (sample_public_ip\<lparr>KeyFile := [], Key := ''PEM''\<rparr>)) = Inr (Signer 1)"
    by (simp add: sample_world_def sample_public_ip_def)
  show ?thesis
    using validate_credentials [of "sample_public_ip\<lparr>Key := ''PEM''\<rparr>" sample_world]
      validate_credentials [of sample_public_ip sample_world "Signer 1" "''PEM''"]
      validate_credentials [of "sample_public_ip\<lparr>KeyFile := [], Key := ''PEM''\<rparr>" sample_world
        "Signer 1"]
      k v f i
    by (metis append_Cons append_Nil)
qed

section \<open>Properties of connect\<close>

text \<open>
  When no tunnel lacks its direction the loop over the tunnels does not panic, and it
  handles every tunnel: each adds its listener, if the listen call gave one, and its one
  event.
\<close>

lemma setStatus_fields:
  "status (setStatus s c) = Some s" "trace (setStatus s c) = trace c @ [Println (Name c @ '': '' @ s)]"
  "Name (setStatus s c) = Name c" "conn (setStatus s c) = conn c"
  "listeners (setStatus s c) = listeners c" "reconnectDelay (setStatus s c) = reconnectDelay c"
  "MaxReconnectDelay (setStatus s c) = MaxReconnectDelay c"
  "KeepAliveInterval (setStatus s c) = KeepAliveInterval c"
  "Tunnels (setStatus s c) = Tunnels c"
  by (simp_all add: setStatus_def)

lemma establish_tunnels_run:
  assumes "\<forall>t \<in> set ts. direction t \<noteq> UnspecifiedDirection"
  shows "\<exists>c'. establish_tunnels w cl i ts c = Inr c'
     \<and> Name c' = Name c \<and> conn c' = conn c \<and> reconnectDelay c' = reconnectDelay c
     \<and> MaxReconnectDelay c' = MaxReconnectDelay c
     \<and> listeners c' = listeners c @ List.map_filter (tunnel_listener w cl) (enumerate i ts)
     \<and> trace c' = trace c @ map (tunnel_event (Name c) w cl) (enumerate i ts)"
  using assms
proof (induction ts arbitrary: i c)
  case Nil
  then show ?case by (simp add: List.map_filter_simps)
next
  case (Cons t ts)
  have dir: "direction t \<noteq> UnspecifiedDirection"
    and rest: "\<forall>t \<in> set ts. direction t \<noteq> UnspecifiedDirection"
    using Cons.prems by simp_all
  define c1 where "c1 =
     (case tunnel_setup w cl (i, t) of
        Inl msg \<Rightarrow> setStatus msg c
      | Inr (l, d) \<Rightarrow> c\<lparr>listeners := listeners c @ [l],
                        trace := trace c @ [go_Forward l (Address (To t)) d]\<rparr>)"
  have step: "establish_tunnels w cl i (t # ts) c = establish_tunnels w cl (Suc i) ts c1"
    using dir unfolding c1_def tunnel_setup_def
    by (cases "direction t") (simp_all split: sum.splits)
  have c1: "Name c1 = Name c" "conn c1 = conn c" "reconnectDelay c1 = reconnectDelay c"
    "MaxReconnectDelay c1 = MaxReconnectDelay c"
    "listeners c1 = listeners c @ List.map_filter (tunnel_listener w cl) [(i, t)]"
    "trace c1 = trace c @ [tunnel_event (Name c) w cl (i, t)]"
    unfolding c1_def tunnel_listener_def tunnel_event_def
    by (auto simp: setStatus_def List.map_filter_simps split: sum.splits)
  from Cons.IH [OF rest, of "Suc i" c1]
  obtain c' where c': "establish_tunnels w cl (Suc i) ts c1 = Inr c'"
    "Name c' = Name c1" "conn c' = conn c1" "reconnectDelay c' = reconnectDelay c1"
    "MaxReconnectDelay c' = MaxReconnectDelay c1"
    "listeners c' = listeners c1 @ List.map_filter (tunnel_listener w cl) (enumerate (Suc i) ts)"
    "trace c' = trace c1 @ map (tunnel_event (Name c1) w cl) (enumerate (Suc i) ts)"
    by blast
  have l: "listeners c' = listeners c @ List.map_filter (tunnel_listener w cl) (enumerate i (t # ts))"
    using c'(6) c1(5) by (simp add: List.map_filter_simps split: option.splits)
  have tr: "trace c' = trace c @ map (tunnel_event (Name c) w cl) (enumerate i (t # ts))"
    using c'(7) c1(1,6) by simp
  show ?case using step c'(1-5) c1(1-4) l tr by simp
qed

lemma validate_fields:
  assumes "validate w c = (issue, c')"
  shows "Name c' = Name c" "Username c' = Username c" "Fingerprint c' = Fingerprint c"
    "conn c' = conn c" "listeners c' = listeners c" "trace c' = trace c"
    "status c' = status c" "reconnectDelay c' = reconnectDelay c"
    "KeyFile c' = KeyFile c" "Key c' = Key c" "Password c' = Password c"
proof -
  obtain k m h a ts where "c' = c\<lparr>KeepAliveInterval := k, MaxReconnectDelay := m, Host := h,
                                 auth := a, Tunnels := ts\<rparr>"
    using validate_cases [OF assms] by blast
  then show "Name c' = Name c" "Username c' = Username c" "Fingerprint c' = Fingerprint c"
    "conn c' = conn c" "listeners c' = listeners c" "trace c' = trace c"
    "status c' = status c" "reconnectDelay c' = reconnectDelay c"
    "KeyFile c' = KeyFile c" "Key c' = Key c" "Password c' = Password c"
    by simp_all
qed

lemma validate_ok_directions:
  assumes "validate w c = ([], c')"
  shows "\<forall>t \<in> set (Tunnels c'). direction t \<noteq> UnspecifiedDirection"
proof -
  from validate_cases [OF assms]
  obtain r where r: "validate_tunnels (Name c) (Tunnels c) = (r, Tunnels c')"
    "case r of None \<Rightarrow> True | Some i \<Rightarrow> False"
    by (auto split: option.splits)
  then have v: "validate_tunnels (Name c) (Tunnels c) = (None, Tunnels c')"
    by (cases r) simp_all
  have len: "length (Tunnels c') = length (Tunnels c)"
    using validate_tunnels_length [of "Name c" "Tunnels c"] v by simp
  have "direction (Tunnels c' ! i) \<noteq> UnspecifiedDirection" if "i < length (Tunnels c')" for i
    using validate_tunnels_None [OF v, of i] that len by auto
  then show ?thesis by (auto simp: in_set_conv_nth)
qed

lemma connect_established:
  assumes "conn c = None" and "validate w c = ([], c1)"
    and "ssh_Dial w (Host c1) (Username c1) (case auth c1 of None \<Rightarrow> [] | Some a \<Rightarrow> [a])
           (Fingerprint c1) = Inr cl"
  shows "\<exists>c'. connect w c = Inr (True, c')
     \<and> conn c' = Some cl \<and> status c' = Some ''ok''
     \<and> reconnectDelay c' = reconnectDelay c
     \<and> MaxReconnectDelay c' = MaxReconnectDelay c1
     \<and> listeners c' =
         listeners c @ List.map_filter (tunnel_listener w cl) (enumerate 0 (Tunnels c1))
     \<and> trace c' =
         trace c @ [Println (Name c @ '': connecting''), Println (Name c @ '': configuring tunnels'')]
         @ map (tunnel_event (Name c) w cl) (enumerate 0 (Tunnels c1))
         @ [Println (Name c @ '': ok'')]"
proof -
  note f = validate_fields [OF assms(2)]
  define c2 where "c2 = setStatus ''configuring tunnels'' ((setStatus ''connecting'' c1)\<lparr>conn := Some cl\<rparr>)"
  have c2: "Name c2 = Name c" "conn c2 = Some cl" "reconnectDelay c2 = reconnectDelay c"
    "MaxReconnectDelay c2 = MaxReconnectDelay c1" "listeners c2 = listeners c"
    "trace c2 = trace c @ [Println (Name c @ '': connecting''), Println (Name c @ '': configuring tunnels'')]"
    "Tunnels c2 = Tunnels c1"
    unfolding c2_def using f by (simp_all add: setStatus_def)
  from establish_tunnels_run [OF validate_ok_directions [OF assms(2)], of w cl 0 c2]
  obtain c3 where c3: "establish_tunnels w cl 0 (Tunnels c1) c2 = Inr c3"
    "Name c3 = Name c2" "conn c3 = conn c2" "reconnectDelay c3 = reconnectDelay c2"
    "MaxReconnectDelay c3 = MaxReconnectDelay c2"
    "listeners c3 = listeners c2 @ List.map_filter (tunnel_listener w cl) (enumerate 0 (Tunnels c1))"
    "trace c3 = trace c2 @ map (tunnel_event (Name c2) w cl) (enumerate 0 (Tunnels c1))"
    by blast
  have "connect w c = Inr (True, setStatus ''ok'' c3)"
    using assms c3(1) unfolding c2_def
    by (simp add: connect_def Let_def setStatus_def)
  then show ?thesis
    using c2 c3 by (simp add: setStatus_def)
qed

lemma map_filter_all_None: "\<forall>x \<in> set xs. f x = None \<Longrightarrow> List.map_filter f xs = []"
  by (induction xs) (simp_all add: List.map_filter_simps)

text \<open>
  C7. When there is no session yet, validation passes and the dial succeeds, \<open>connect\<close>
  returns true whatever the listen calls answer, with the session stored and status
  \<open>ok\<close>. Each tunnel adds exactly one event: a tunnel whose listen fails adds the status
  line of the failure and no listener; a tunnel whose listen succeeds adds its listener
  and starts its forwarder. The tunnels after a failed one are set up all the same, and
  when every listen fails the listener set is unchanged.
\<close>

theorem connect_listen_failure:
  assumes "conn c = None" and "validate w c = ([], c1)"
    and "ssh_Dial w (Host c1) (Username c1) (case auth c1 of None \<Rightarrow> [] | Some a \<Rightarrow> [a])
           (Fingerprint c1) = Inr cl"
  shows "(\<exists>c'. connect w c = Inr (True, c')
       \<and> conn c' = Some cl \<and> status c' = Some ''ok''
       \<and> listeners c' =
           listeners c @ List.map_filter (tunnel_listener w cl) (enumerate 0 (Tunnels c1))
       \<and> trace c' =
           trace c @ [Println (Name c @ '': connecting''),
                      Println (Name c @ '': configuring tunnels'')]
           @ map (tunnel_event (Name c) w cl) (enumerate 0 (Tunnels c1))
           @ [Println (Name c @ '': ok'')]
       \<and> ((\<forall>x \<in> set (enumerate 0 (Tunnels c1)). isl (tunnel_setup w cl x)) \<longrightarrow>
            listeners c' = listeners c))
     \<and> (direction t = ExposedLocally \<and> net_Listen w i (Address (From t)) = Inl err \<longrightarrow>
          tunnel_listener w cl (i, t) = None
          \<and> tunnel_event n w cl (i, t) =
              Println (n @ '': failed to listen on '' @ Address (From t) @ '' (Local): '' @ err))
     \<and> (direction t = ExposedOnServer \<and> conn_Listen w cl i (Address (From t)) = Inl err \<longrightarrow>
          tunnel_listener w cl (i, t) = None
          \<and> tunnel_event n w cl (i, t) =
              Println (n @ '': failed to listen on '' @ Address (From t) @ '' (Remote): '' @ err))
     \<and> (direction t = ExposedLocally \<and> net_Listen w i (Address (From t)) = Inr l \<longrightarrow>
          tunnel_listener w cl (i, t) = Some l
          \<and> tunnel_event n w cl (i, t) = go_Forward l (Address (To t)) (conn_Dial cl))
     \<and> (direction t = ExposedOnServer \<and> conn_Listen w cl i (Address (From t)) = Inr l \<longrightarrow>
          tunnel_listener w cl (i, t) = Some l
          \<and> tunnel_event n w cl (i, t) = go_Forward l (Address (To t)) net_Dial)"
proof -
  from connect_established [OF assms] obtain c' where c':
    "connect w c = Inr (True, c')" "conn c' = Some cl" "status c' = Some ''ok''"
    "listeners c' =
       listeners c @ List.map_filter (tunnel_listener w cl) (enumerate 0 (Tunnels c1))"
    "trace c' =
       trace c @ [Println (Name c @ '': connecting''), Println (Name c @ '': configuring tunnels'')]
       @ map (tunnel_event (Name c) w cl) (enumerate 0 (Tunnels c1))
       @ [Println (Name c @ '': ok'')]"
    by blast
  have none: "listeners c' = listeners c"
    if "\<forall>x \<in> set (enumerate 0 (Tunnels c1)). isl (tunnel_setup w cl x)"
  proof -
    have "\<forall>x \<in> set (enumerate 0 (Tunnels c1)). tunnel_listener w cl x = None"
      using that by (auto simp: tunnel_listener_def split: sum.splits)
    then show ?thesis using c'(4) by (simp add: map_filter_all_None)
  qed
  have each:
    "direction t = ExposedLocally \<and> net_Listen w i (Address (From t)) = Inl err \<longrightarrow>
          tunnel_listener w cl (i, t) = None
          \<and> tunnel_event n w cl (i, t) =
              Println (n @ '': failed to listen on '' @ Address (From t) @ '' (Local): '' @ err)"
    "direction t = ExposedOnServer \<and> conn_Listen w cl i (Address (From t)) = Inl err \<longrightarrow>
          tunnel_listener w cl (i, t) = None
          \<and> tunnel_event n w cl (i, t) =
              Println (n @ '': failed to listen on '' @ Address (From t) @ '' (Remote): '' @ err)"
    "direction t = ExposedLocally \<and> net_Listen w i (Address (From t)) = Inr l \<longrightarrow>
          tunnel_listener w cl (i, t) = Some l
          \<and> tunnel_event n w cl (i, t) = go_Forward l (Address (To t)) (conn_Dial cl)"
    "direction t = ExposedOnServer \<and> conn_Listen w cl i (Address (From t)) = Inr l \<longrightarrow>
          tunnel_listener w cl (i, t) = Some l
          \<and> tunnel_event n w cl (i, t) = go_Forward l (Address (To t)) net_Dial"
    by (simp_all add: tunnel_listener_def tunnel_event_def tunnel_setup_def)
  show ?thesis using c' none each by blast
qed

lemma validate_sample_two_tunnels:
  "LookupHost w = LookupHost sample_world \<Longrightarrow>
   validate w sample_two_tunnels =
     ([], sample_two_tunnels
            \<lparr>auth := Some (ssh_Password ''P@ssw0rd''),
             Tunnels := [\<lparr>From = \<lparr>Side = ''Local'', Address = ''127.0.0.1:30000''\<rparr>,
                          To = \<lparr>Side = ''Remote'', Address = ''127.0.0.1:3306''\<rparr>,
                          direction = ExposedLocally\<rparr>,
                         \<lparr>From = \<lparr>Side = ''Remote'', Address = ''0.0.0.0:80''\<rparr>,
                          To = \<lparr>Side = ''Local'', Address = ''127.0.0.1:80''\<rparr>,
                          direction = ExposedOnServer\<rparr>]\<rparr>)"
  by (simp add: validate_defs sample_world_def sample_two_tunnels_def sample_database_def
        SplitHostPort_samples Second_def Minute_def)

theorem connect_listen_failure_witness:
  "conn sample_two_tunnels = None
   \<and> fst (validate busy_port_world sample_two_tunnels) = []
   \<and> connect busy_port_world sample_two_tunnels
       = Inr (True, snd (projr (connect busy_port_world sample_two_tunnels)))
   \<and> listeners (snd (projr (connect busy_port_world sample_two_tunnels))) = [Listener 1]
   \<and> trace (snd (projr (connect busy_port_world sample_two_tunnels)))
       = [Println ''My Database Server: connecting'',
          Println ''My Database Server: configuring tunnels'',
          Println ''My Database Server: failed to listen on 127.0.0.1:30000 (Local): listen tcp 127.0.0.1:30000: bind: address already in use'',
          go_Forward (Listener 1) ''127.0.0.1:80'' net_Dial,
          Println ''My Database Server: ok'']
   \<and> connect no_listener_world sample_two_tunnels
       = Inr (True, snd (projr (connect no_listener_world sample_two_tunnels)))
   \<and> listeners (snd (projr (connect no_listener_world sample_two_tunnels))) = []"
proof -
  have n: "conn sample_two_tunnels = None" "listeners sample_two_tunnels = []"
    "trace sample_two_tunnels = []" "Name sample_two_tunnels = ''My Database Server''"
    by (simp_all add: sample_two_tunnels_def sample_database_def)
  have l: "LookupHost busy_port_world = LookupHost sample_world"
    "LookupHost no_listener_world = LookupHost sample_world"
    by (simp_all add: busy_port_world_def no_listener_world_def)
  define c1 where "c1 = snd (validate busy_port_world sample_two_tunnels)"
  define c2 where "c2 = snd (validate no_listener_world sample_two_tunnels)"
  have v: "validate busy_port_world sample_two_tunnels = ([], c1)"
    "validate no_listener_world sample_two_tunnels = ([], c2)"
    unfolding c1_def c2_def
    by (simp_all add: validate_sample_two_tunnels [OF l(1)] validate_sample_two_tunnels [OF l(2)])
  have t: "enumerate 0 (Tunnels c1) =
      [(0, \<lparr>From = \<lparr>Side = ''Local'', Address = ''127.0.0.1:30000''\<rparr>,
            To = \<lparr>Side = ''Remote'', Address = ''127.0.0.1:3306''\<rparr>,
            direction = ExposedLocally\<rparr>),
       (1, \<lparr>From = \<lparr>Side = ''Remote'', Address = ''0.0.0.0:80''\<rparr>,
            To = \<lparr>Side = ''Local'', Address = ''127.0.0.1:80''\<rparr>,
            direction = ExposedOnServer\<rparr>)]"
    "Tunnels c2 = Tunnels c1"
    unfolding c1_def c2_def
    by (simp_all add: validate_sample_two_tunnels [OF l(1)] validate_sample_two_tunnels [OF l(2)]
          enumerate_eq_zip upt_rec)
  have d: "ssh_Dial busy_port_world h u a f = Inr (Client 1)"
    "ssh_Dial no_listener_world h u a f = Inr (Client 1)" for h u a f
    by (simp_all add: busy_port_world_def no_listener_world_def sample_world_def)
  from connect_listen_failure [OF n(1) v(1) d(1), THEN conjunct1]
  obtain c' where c': "connect busy_port_world sample_two_tunnels = Inr (True, c')"
    "listeners c' = listeners sample_two_tunnels @
       List.map_filter (tunnel_listener busy_port_world (Client 1)) (enumerate 0 (Tunnels c1))"
    "trace c' = trace sample_two_tunnels
       @ [Println (Name sample_two_tunnels @ '': connecting''),
          Println (Name sample_two_tunnels @ '': configuring tunnels'')]
       @ map (tunnel_event (Name sample_two_tunnels) busy_port_world (Client 1))
           (enumerate 0 (Tunnels c1))
       @ [Println (Name sample_two_tunnels @ '': ok'')]"
    by blast
  have busy: "listeners c' = [Listener 1]"
    "trace c' = [Println ''My Database Server: connecting'',
          Println ''My Database Server: configuring tunnels'',
          Println ''My Database Server: failed to listen on 127.0.0.1:30000 (Local): listen tcp 127.0.0.1:30000: bind: address already in use'',
          go_Forward (Listener 1) ''127.0.0.1:80'' net_Dial,
          Println ''My Database Server: ok'']"
    unfolding c'(2,3) t n
    by (simp_all add: List.map_filter_simps tunnel_listener_def
          tunnel_event_def tunnel_setup_def busy_port_world_def sample_world_def)
  from connect_listen_failure [OF n(1) v(2) d(2), THEN conjunct1]
  obtain c'' where c'': "connect no_listener_world sample_two_tunnels = Inr (True, c'')"
    "listeners c'' = listeners sample_two_tunnels @
       List.map_filter (tunnel_listener no_listener_world (Client 1)) (enumerate 0 (Tunnels c2))"
    by blast
  have none: "listeners c'' = []"
    unfolding c''(2) t n
    by (simp add: List.map_filter_simps tunnel_listener_def
          tunnel_setup_def no_listener_world_def busy_port_world_def sample_world_def)
  show ?thesis
    using n(1) c'(1) busy c''(1) none v(1) by simp
qed

section \<open>Properties of the supervisor loop\<close>

text \<open>
  \<open>connect\<close> never writes the backoff delay, keeps a cap that is not zero, and leaves no
  session behind when it fails.
\<close>

lemma establish_tunnels_frame:
  "establish_tunnels w cl i ts c = Inr c' \<Longrightarrow>
     reconnectDelay c' = reconnectDelay c \<and> MaxReconnectDelay c' = MaxReconnectDelay c"
proof (induction ts arbitrary: i c)
  case Nil
  then show ?case by simp
next
  case (Cons t ts)
  show ?case
  proof (cases "direction t")
    case UnspecifiedDirection
    then show ?thesis using Cons.prems by simp
  next
    case ExposedOnServer
    then show ?thesis
      using Cons.prems Cons.IH
      by (cases "conn_Listen w cl i (Address (From t))") (fastforce simp: setStatus_def)+
  next
    case ExposedLocally
    then show ?thesis
      using Cons.prems Cons.IH
      by (cases "net_Listen w i (Address (From t))") (fastforce simp: setStatus_def)+
  qed
qed

lemma connect_frame:
  assumes "connect w c = Inr (ok, c')"
  shows "reconnectDelay c' = reconnectDelay c"
    and "Unwrap (MaxReconnectDelay c) \<noteq> 0 \<Longrightarrow> MaxReconnectDelay c' = MaxReconnectDelay c"
    and "conn c = None \<Longrightarrow> \<not> ok \<Longrightarrow> conn c' = None"
proof -
  obtain issue c1 where v: "validate w c = (issue, c1)" by (cases "validate w c")
  note f = validate_fields [OF v]
  have m: "Unwrap (MaxReconnectDelay c) \<noteq> 0 \<Longrightarrow> MaxReconnectDelay c1 = MaxReconnectDelay c"
    using validate_Max [of c w] v by simp
  let ?c2 = "setStatus ''connecting'' c1"
  let ?dial = "ssh_Dial w (Host ?c2) (Username ?c2)
                 (case auth ?c2 of None \<Rightarrow> [] | Some a \<Rightarrow> [a]) (Fingerprint ?c2)"
  consider (already) "conn c \<noteq> None" "ok" "c' = setStatus ''already connected'' c"
    | (invalid) "conn c = None" "issue \<noteq> []" "\<not> ok" "c' = setStatus issue c1"
    | (refused) err where "conn c = None" "\<not> ok"
        "c' = setStatus (''failed to connect to '' @ Host ?c2 @ '': '' @ err) (?c2\<lparr>conn := None\<rparr>)"
    | (up) cl c3 where "conn c = None" "ok"
        "establish_tunnels w cl 0 (Tunnels ?c2)
           (setStatus ''configuring tunnels'' (?c2\<lparr>conn := Some cl\<rparr>)) = Inr c3"
        "c' = setStatus ''ok'' c3"
    using assms v
    by (auto simp: connect_def Let_def split: if_splits sum.splits)
  then have "reconnectDelay c' = reconnectDelay c
     \<and> (Unwrap (MaxReconnectDelay c) \<noteq> 0 \<longrightarrow> MaxReconnectDelay c' = MaxReconnectDelay c)
     \<and> (conn c = None \<longrightarrow> \<not> ok \<longrightarrow> conn c' = None)"
  proof cases
    case already
    then show ?thesis by (simp add: setStatus_def)
  next
    case invalid
    then show ?thesis using f m by (simp add: setStatus_def)
  next
    case refused
    then show ?thesis using f m by (simp add: setStatus_def)
  next
    case up
    then show ?thesis
      using establish_tunnels_frame [OF up(3)] f m by (simp add: setStatus_def)
  qed
  then show "reconnectDelay c' = reconnectDelay c"
    and "Unwrap (MaxReconnectDelay c) \<noteq> 0 \<Longrightarrow> MaxReconnectDelay c' = MaxReconnectDelay c"
    and "conn c = None \<Longrightarrow> \<not> ok \<Longrightarrow> conn c' = None"
    by simp_all
qed

lemma Close_fields:
  "conn (snd (Close c)) = None" "reconnectDelay (snd (Close c)) = reconnectDelay c"
  "MaxReconnectDelay (snd (Close c)) = MaxReconnectDelay c"
  by (simp_all add: Close_def Let_def split: option.splits)

lemma reconnect_frame:
  assumes "reconnect w c = Inr (ok, c')"
  shows "reconnectDelay c' = reconnectDelay c"
    and "Unwrap (MaxReconnectDelay c) \<noteq> 0 \<Longrightarrow> MaxReconnectDelay c' = MaxReconnectDelay c"
    and "\<not> ok \<Longrightarrow> conn c' = None"
  using connect_frame [OF assms [unfolded reconnect_def]]
  by (simp_all add: Close_fields setStatus_fields)

text \<open>
  \<open>connect\<close> always returns: its panic is out of reach, since it dials only after
  \<open>validate\<close> has given every tunnel its direction. So every pass of the loop returns,
  and the loop goes through any number of passes.
\<close>

lemma connect_returns: "\<exists>ok c'. connect w c = Inr (ok, c')"
proof (cases "conn c")
  case (Some cl)
  then show ?thesis by (auto simp: connect_def)
next
  case None
  obtain issue c1 where v: "validate w c = (issue, c1)" by (cases "validate w c")
  show ?thesis
  proof (cases "issue = []")
    case False
    then show ?thesis using None v by (auto simp: connect_def)
  next
    case True
    let ?dial = "ssh_Dial w (Host c1) (Username c1)
                   (case auth c1 of None \<Rightarrow> [] | Some a \<Rightarrow> [a]) (Fingerprint c1)"
    show ?thesis
    proof (cases ?dial)
      case (Inl err)
      then show ?thesis using None v True by (auto simp: connect_def Let_def setStatus_def)
    next
      case (Inr cl)
      from connect_established [OF None v [unfolded True] Inr] show ?thesis by blast
    qed
  qed
qed

lemma Handle_pass_returns: "\<exists>c'. Handle_pass kii w c = Inr c'"
proof -
  obtain ok c' where "reconnect w c = Inr (ok, c')"
    using connect_returns [of w "snd (Close (setStatus ''disconnected'' c))"]
    by (auto simp: reconnect_def)
  then show ?thesis by (simp add: Handle_pass_def)
qed

lemma Handle_loop_returns: "\<exists>c'. Handle_loop kii ws c = Inr c'"
proof (induction ws arbitrary: c)
  case Nil
  then show ?case by simp
next
  case (Cons w ws)
  obtain c1 where "Handle_pass kii w c = Inr c1" using Handle_pass_returns by blast
  then show ?case using Cons.IH [of c1] by simp
qed

text \<open>
  The failure branch: doubling stays within \<open>int64\<close> below \<open>2 ^ 62\<close>, and a run of failed
  attempts doubles the delay up to the cap.
\<close>

lemma int64_id: "- (2 ^ 63) \<le> x \<Longrightarrow> x < 2 ^ 63 \<Longrightarrow> int64 x = x"
  by (simp add: int64_def)

lemma backoff_fields:
  "conn (backoff c) = conn c" "MaxReconnectDelay (backoff c) = MaxReconnectDelay c"
  "reconnectDelay (backoff c) =
     (if int64 (reconnectDelay c * 2) > Unwrap (MaxReconnectDelay c)
      then Unwrap (MaxReconnectDelay c) else int64 (reconnectDelay c * 2))"
  "status (backoff c) = Some (''reconnecting in '' @ Duration_String (reconnectDelay (backoff c)))"
  "trace (backoff c) =
     trace c @ [Println (Name c @ '': reconnecting in ''
                         @ Duration_String (reconnectDelay (backoff c))),
                Sleep (reconnectDelay (backoff c))]"
  by (simp_all add: backoff_def Let_def setStatus_def)

lemma backoff_delay:
  assumes "0 < reconnectDelay c" "reconnectDelay c < 2 ^ 62"
  shows "reconnectDelay (backoff c) = min (2 * reconnectDelay c) (Unwrap (MaxReconnectDelay c))"
proof -
  have "int64 (reconnectDelay c * 2) = reconnectDelay c * 2"
    using assms by (intro int64_id) simp_all
  then show ?thesis by (simp add: backoff_fields min_def)
qed

lemma min_double:
  fixes d M :: int
  assumes "0 < d" "0 < M"
  shows "min (2 ^ k * min (2 * d) M) M = min (2 ^ Suc k * d) M"
proof (cases "2 * d \<le> M")
  case True
  then show ?thesis by (simp add: min_def mult.assoc)
next
  case False
  have one: "(1::int) \<le> 2 ^ k" by simp
  have "1 * M \<le> 2 ^ k * M" using one assms(2) by (intro mult_right_mono) simp_all
  moreover have "1 * (2 * d) \<le> 2 ^ k * (2 * d)"
    using one assms(1) by (intro mult_right_mono) simp_all
  ultimately show ?thesis using False by (simp add: min_def)
qed

lemma failed_attempts_run:
  assumes "0 < M" "M < 2 ^ 62" "MaxReconnectDelay c = Duration M"
    and "0 < reconnectDelay c" "reconnectDelay c < 2 ^ 62"
    and "failed_attempts kii ws c"
  shows "\<exists>c'. Handle_loop kii ws c = Inr c'
     \<and> MaxReconnectDelay c' = Duration M
     \<and> (ws \<noteq> [] \<longrightarrow>
          reconnectDelay c' = min (2 ^ length ws * reconnectDelay c) M
          \<and> conn c' = None
          \<and> status c' = Some (''reconnecting in '' @ Duration_String (reconnectDelay c'))
          \<and> last (trace c') = Sleep (reconnectDelay c'))"
  using assms(3-6)
proof (induction ws arbitrary: c)
  case Nil
  then show ?case by simp
next
  case (Cons w ws)
  from Cons.prems(4) obtain c1 where
    dead: "\<not> IsAlive w c (int64 (quo kii 10 * 9))"
    and r: "reconnect w c = Inr (False, c1)"
    and rest: "failed_attempts kii ws (backoff c1)"
    by (auto split: sum.splits prod.splits bool.splits)
  have c1: "reconnectDelay c1 = reconnectDelay c" "MaxReconnectDelay c1 = Duration M"
    "conn c1 = None"
    using reconnect_frame [OF r] Cons.prems(1) assms(1) by simp_all
  have pass: "Handle_pass kii w c = Inr (backoff c1)"
    using dead r by (simp add: Handle_pass_def)
  have d: "reconnectDelay (backoff c1) = min (2 * reconnectDelay c) M"
    using backoff_delay [of c1] c1 Cons.prems(2,3) by simp
  have b: "MaxReconnectDelay (backoff c1) = Duration M" "0 < reconnectDelay (backoff c1)"
    "reconnectDelay (backoff c1) < 2 ^ 62"
    using d c1 Cons.prems(2) assms(1,2) by (simp_all add: backoff_fields)
  from Cons.IH [OF b rest] obtain c' where c':
    "Handle_loop kii ws (backoff c1) = Inr c'"
    "MaxReconnectDelay c' = Duration M"
    "ws \<noteq> [] \<longrightarrow>
          reconnectDelay c' = min (2 ^ length ws * reconnectDelay (backoff c1)) M
          \<and> conn c' = None
          \<and> status c' = Some (''reconnecting in '' @ Duration_String (reconnectDelay c'))
          \<and> last (trace c') = Sleep (reconnectDelay c')"
    by blast
  have loop: "Handle_loop kii (w # ws) c = Inr c'" using pass c'(1) by simp
  have final: "reconnectDelay c' = min (2 ^ length (w # ws) * reconnectDelay c) M
          \<and> conn c' = None
          \<and> status c' = Some (''reconnecting in '' @ Duration_String (reconnectDelay c'))
          \<and> last (trace c') = Sleep (reconnectDelay c')"
  proof (cases ws)
    case Nil
    then have "c' = backoff c1" using c'(1) by simp
    then show ?thesis using c1(3) d Nil by (simp add: backoff_fields)
  next
    case (Cons a list)
    then show ?thesis
      using c'(3) d min_double [OF Cons.prems(2) assms(1), of "length ws"] by simp
  qed
  show ?case using loop c'(2) final by blast
qed

lemma refused_attempts:
  assumes "conn c = None"
    and "\<forall>w \<in> set ws. \<forall>h u a f. isl (ssh_Dial w h u a f)"
  shows "failed_attempts kii ws c"
  using assms
proof (induction ws arbitrary: c)
  case Nil
  then show ?case by simp
next
  case (Cons w ws)
  have dead: "\<not> IsAlive w c (int64 (quo kii 10 * 9))"
    using Cons.prems(1) by (simp add: IsAlive_def)
  have dial: "isl (ssh_Dial w h u a f)" for h u a f
    using Cons.prems(2) by simp
  let ?c0 = "snd (Close (setStatus ''disconnected'' c))"
  obtain issue c1 where v: "validate w ?c0 = (issue, c1)" by (cases "validate w ?c0")
  have "\<exists>c'. connect w ?c0 = Inr (False, c')"
    using v dial [of "Host c1" "Username c1" "case auth c1 of None \<Rightarrow> [] | Some a \<Rightarrow> [a]"
        "Fingerprint c1"]
    by (auto simp: connect_def Close_fields Let_def setStatus_def split: sum.splits)
  then obtain c' where r: "reconnect w c = Inr (False, c')"
    by (auto simp: reconnect_def)
  have "conn (backoff c') = None"
    using reconnect_frame(3) [OF r] by (simp add: backoff_fields)
  then have "failed_attempts kii ws (backoff c')"
    using Cons.IH Cons.prems(2) by simp
  then show ?case using dead r by simp
qed

text \<open>Runs of the sample connection, by evaluation.\<close>

lemmas run_defs =
  Handle_def Handle_pass_def reconnect_def backoff_def connect_def Close_def IsAlive_def
  setStatus_def validate_defs int64_def quo_def Second_def Minute_def

lemma Duration_String_samples:
  "Duration_String 2000000000 = ''2s''"
  "Duration_String 4000000000 = ''4s''"
  "Duration_String 5000000000 = ''5s''"
  "Duration_String 8000000000 = ''8s''"
  by (simp_all add: Duration_String_def fmtFrac_def fmtInt_def numeral_eq_Suc Let_def digit_byte_def)

lemma first_failure:
  "Handle [refusing_world] sample_database =
     Inr (sample_database
           \<lparr>Host := ''db.example.com:22'',
            Tunnels := [\<lparr>From = \<lparr>Side = ''Local'', Address = ''127.0.0.1:30000''\<rparr>,
                         To = \<lparr>Side = ''Remote'', Address = ''127.0.0.1:3306''\<rparr>,
                         direction = ExposedLocally\<rparr>],
            status := Some ''reconnecting in 2s'',
            auth := Some (ssh_Password ''P@ssw0rd''),
            reconnectDelay := 2000000000,
            trace := [Println ''My Database Server: disconnected'',
                      Println ''My Database Server: connecting'',
                      Println ''My Database Server: failed to connect to db.example.com:22: dial tcp 192.0.2.1:22: connect: connection refused'',
                      Println ''My Database Server: reconnecting in 2s'',
                      Sleep 2000000000]\<rparr>)"
  by (simp add: run_defs refusing_world_def sample_world_def sample_database_def
        SplitHostPort_samples Duration_String_samples)

text \<open>
  C1, amended. Let the cap \<open>MaxReconnectDelay\<close> be positive and below \<open>2 ^ 62\<close>
  nanoseconds. After \<open>n \<ge> 1\<close> passes of the supervisor loop that each end in a failed
  \<open>connect\<close>, counted from a state with the delay at the 1-second floor, the backoff
  delay is the smaller of \<open>2 ^ n\<close> seconds and the cap; it is the delay named in the
  status \<open>reconnecting in ...\<close> and the delay last slept. This holds in particular for
  the first \<open>n\<close> passes of \<open>Handle\<close> when the keepalive interval is positive. So the first
  three failures record 2s, 4s and 8s.
\<close>

theorem Handle_backoff:
  assumes "0 < Unwrap (MaxReconnectDelay c)" "Unwrap (MaxReconnectDelay c) < 2 ^ 62"
    and "ws \<noteq> []"
  shows "(reconnectDelay c = Second \<and> failed_attempts kii ws c \<longrightarrow>
           (\<exists>c'. Handle_loop kii ws c = Inr c'
              \<and> reconnectDelay c' = min (2 ^ length ws * Second) (Unwrap (MaxReconnectDelay c))
              \<and> status c' = Some (''reconnecting in '' @ Duration_String (reconnectDelay c'))
              \<and> last (trace c') = Sleep (reconnectDelay c')))
     \<and> (0 < Unwrap (KeepAliveInterval c)
         \<and> failed_attempts (Unwrap (KeepAliveInterval c)) ws (c\<lparr>reconnectDelay := Second\<rparr>) \<longrightarrow>
           (\<exists>c'. Handle ws c = Inr c'
              \<and> reconnectDelay c' = min (2 ^ length ws * Second) (Unwrap (MaxReconnectDelay c))
              \<and> status c' = Some (''reconnecting in '' @ Duration_String (reconnectDelay c'))
              \<and> last (trace c') = Sleep (reconnectDelay c')))"
proof -
  let ?M = "Unwrap (MaxReconnectDelay c)"
  have run: "\<exists>c'. Handle_loop k ws x = Inr c'
              \<and> reconnectDelay c' = min (2 ^ length ws * Second) ?M
              \<and> status c' = Some (''reconnecting in '' @ Duration_String (reconnectDelay c'))
              \<and> last (trace c') = Sleep (reconnectDelay c')"
    if x: "MaxReconnectDelay x = MaxReconnectDelay c" "reconnectDelay x = Second"
      and f: "failed_attempts k ws x" for k x
  proof -
    have M: "MaxReconnectDelay x = Duration ?M"
      using x(1) by (cases "MaxReconnectDelay c") simp
    have "\<exists>c'. Handle_loop k ws x = Inr c'
       \<and> MaxReconnectDelay c' = Duration ?M
       \<and> (ws \<noteq> [] \<longrightarrow>
            reconnectDelay c' = min (2 ^ length ws * reconnectDelay x) ?M
            \<and> conn c' = None
            \<and> status c' = Some (''reconnecting in '' @ Duration_String (reconnectDelay c'))
            \<and> last (trace c') = Sleep (reconnectDelay c'))"
      using assms(1,2) M x(2) f
      by (intro failed_attempts_run) (simp_all add: Second_def)
    then show ?thesis using assms(3) x(2) by auto
  qed
  have start: "Handle ws c =
      Handle_loop (Unwrap (KeepAliveInterval c)) ws (c\<lparr>reconnectDelay := Second\<rparr>)"
    if "0 < Unwrap (KeepAliveInterval c)"
    using that by (simp add: Handle_def)
  show ?thesis
    using run [of c kii] run [of "c\<lparr>reconnectDelay := Second\<rparr>" "Unwrap (KeepAliveInterval c)"]
      start
    by simp
qed

theorem Handle_backoff_witness:
  "failed_attempts (Unwrap (KeepAliveInterval sample_database))
     [refusing_world, refusing_world, refusing_world] (sample_database\<lparr>reconnectDelay := Second\<rparr>)
   \<and> \<not> isl (Handle [refusing_world, refusing_world, refusing_world] sample_database)
   \<and> reconnectDelay (projr (Handle [refusing_world, refusing_world, refusing_world] sample_database))
       = 8000000000
   \<and> status (projr (Handle [refusing_world, refusing_world, refusing_world] sample_database))
       = Some ''reconnecting in 8s''
   \<and> reconnectDelay (projr (Handle [refusing_world, refusing_world, refusing_world]
                               (sample_database\<lparr>MaxReconnectDelay := Duration 5000000000\<rparr>)))
       = 5000000000
   \<and> reconnectDelay (projr (Handle_loop 30000000000 [refusing_world, refusing_world]
                               (sample_database\<lparr>reconnectDelay := Second\<rparr>)))
       = 4000000000"
proof -
  let ?ws = "[refusing_world, refusing_world, refusing_world]"
  let ?capped = "sample_database\<lparr>MaxReconnectDelay := Duration 5000000000\<rparr>"
  let ?floor = "sample_database\<lparr>reconnectDelay := Second\<rparr>"
  have refuses: "\<forall>w \<in> set ?ws. \<forall>h u a f. isl (ssh_Dial w h u a f)"
    "\<forall>w \<in> set [refusing_world, refusing_world]. \<forall>h u a f. isl (ssh_Dial w h u a f)"
    by (simp_all add: refusing_world_def)
  have f: "failed_attempts (Unwrap (KeepAliveInterval sample_database)) ?ws ?floor"
    by (rule refused_attempts [OF _ refuses(1)]) (simp add: sample_database_def)
  have g: "failed_attempts (Unwrap (KeepAliveInterval ?capped)) ?ws
             (?capped\<lparr>reconnectDelay := Second\<rparr>)"
    by (rule refused_attempts [OF _ refuses(1)]) (simp add: sample_database_def)
  have e: "failed_attempts 30000000000 [refusing_world, refusing_world] ?floor"
    by (rule refused_attempts [OF _ refuses(2)]) (simp add: sample_database_def)
  have k: "0 < Unwrap (KeepAliveInterval sample_database)"
    "0 < Unwrap (MaxReconnectDelay sample_database)"
    "Unwrap (MaxReconnectDelay sample_database) < 2 ^ 62"
    "0 < Unwrap (KeepAliveInterval ?capped)" "0 < Unwrap (MaxReconnectDelay ?capped)"
    "Unwrap (MaxReconnectDelay ?capped) < 2 ^ 62"
    "0 < Unwrap (MaxReconnectDelay ?floor)" "Unwrap (MaxReconnectDelay ?floor) < 2 ^ 62"
    "reconnectDelay ?floor = Second"
    by (simp_all add: sample_database_def Second_def Minute_def)
  have n: "?ws \<noteq> []" "[refusing_world, refusing_world] \<noteq> []" by simp_all
  have m: "min (2 ^ length ?ws * Second) (Unwrap (MaxReconnectDelay sample_database)) = 8000000000"
    "min (2 ^ length ?ws * Second) (Unwrap (MaxReconnectDelay ?capped)) = 5000000000"
    "min (2 ^ length [refusing_world, refusing_world] * Second)
         (Unwrap (MaxReconnectDelay ?floor)) = 4000000000"
    by (simp_all add: sample_database_def Second_def Minute_def)
  from Handle_backoff [OF k(2,3) n(1), THEN conjunct2] k(1) f m(1)
  have a: "\<not> isl (Handle ?ws sample_database)
     \<and> reconnectDelay (projr (Handle ?ws sample_database)) = 8000000000
     \<and> status (projr (Handle ?ws sample_database)) = Some ''reconnecting in 8s''"
    by (auto simp: Duration_String_samples)
  from Handle_backoff [OF k(5,6) n(1), THEN conjunct2] k(4) g m(2)
  have b: "reconnectDelay (projr (Handle ?ws ?capped)) = 5000000000"
    by auto
  from Handle_backoff [OF k(7,8) n(2), THEN conjunct1, of 30000000000] k(9) e m(3)
  have c: "reconnectDelay (projr (Handle_loop 30000000000 [refusing_world, refusing_world] ?floor))
      = 4000000000"
    by auto
  show ?thesis using f a b c by blast
qed

text \<open>
  C1, as stated, fails: after the first failed attempt the delay is 2 seconds, not
  \<open>min (2 ^ (1 - 1)) C = 1\<close> second, and \<open>reconnecting in 1s\<close> is never recorded.
\<close>

theorem backoff_counterexample:
  "failed_attempts (Unwrap (KeepAliveInterval sample_database)) [refusing_world]
     (sample_database\<lparr>reconnectDelay := Second\<rparr>)
   \<and> \<not> isl (Handle [refusing_world] sample_database)
   \<and> reconnectDelay (projr (Handle [refusing_world] sample_database)) = 2000000000
   \<and> status (projr (Handle [refusing_world] sample_database)) = Some ''reconnecting in 2s''
   \<and> reconnectDelay (projr (Handle [refusing_world] sample_database))
       \<noteq> min (2 ^ (1 - 1) * Second) (Unwrap (MaxReconnectDelay sample_database))
   \<and> Println ''My Database Server: reconnecting in 1s''
       \<notin> set (trace (projr (Handle [refusing_world] sample_database)))"
proof -
  have f: "failed_attempts (Unwrap (KeepAliveInterval sample_database)) [refusing_world]
     (sample_database\<lparr>reconnectDelay := Second\<rparr>)"
    by (rule refused_attempts) (simp_all add: sample_database_def refusing_world_def)
  show ?thesis
    using f by (simp add: first_failure) (simp add: sample_database_def Second_def Minute_def)
qed

lemma failure_then_success:
  "Handle [refusing_world, sample_world] sample_database =
     Inr (sample_database
           \<lparr>Host := ''db.example.com:22'',
            Tunnels := [\<lparr>From = \<lparr>Side = ''Local'', Address = ''127.0.0.1:30000''\<rparr>,
                         To = \<lparr>Side = ''Remote'', Address = ''127.0.0.1:3306''\<rparr>,
                         direction = ExposedLocally\<rparr>],
            status := Some ''ok'',
            auth := Some (ssh_Password ''P@ssw0rd''),
            conn := Some (Client 1),
            listeners := [Listener 0],
            reconnectDelay := 2000000000,
            trace := [Println ''My Database Server: disconnected'',
                      Println ''My Database Server: connecting'',
                      Println ''My Database Server: failed to connect to db.example.com:22: dial tcp 192.0.2.1:22: connect: connection refused'',
                      Println ''My Database Server: reconnecting in 2s'',
                      Sleep 2000000000,
                      Println ''My Database Server: disconnected'',
                      Println ''My Database Server: connecting'',
                      Println ''My Database Server: configuring tunnels'',
                      go_Forward (Listener 0) ''127.0.0.1:3306'' (conn_Dial (Client 1)),
                      Println ''My Database Server: ok'']\<rparr>)"
  by (simp add: run_defs refusing_world_def sample_world_def sample_database_def
        SplitHostPort_samples Duration_String_samples)

lemma success_after_failure:
  "reconnect sample_world (projr (Handle [refusing_world] sample_database)) =
     Inr (True, projr (Handle [refusing_world, sample_world] sample_database))"
  by (simp add: first_failure failure_then_success)
     (simp add: run_defs sample_world_def sample_database_def SplitHostPort_samples)

text \<open>
  C2, as stated, fails: a \<open>connect\<close> that succeeds after one failure leaves the delay at
  2 seconds, not at the floor.
\<close>

theorem reset_counterexample:
  "reconnect sample_world (projr (Handle [refusing_world] sample_database)) =
     Inr (True, projr (Handle [refusing_world, sample_world] sample_database))
   \<and> status (projr (Handle [refusing_world, sample_world] sample_database)) = Some ''ok''
   \<and> reconnectDelay (projr (Handle [refusing_world, sample_world] sample_database)) = 2000000000
   \<and> reconnectDelay (projr (Handle [refusing_world, sample_world] sample_database)) \<noteq> Second"
  using success_after_failure
  by (simp add: failure_then_success) (simp add: Second_def)

text \<open>
  C2, amended. A reconnect that succeeds leaves the backoff delay as it was before the
  attempt, and the pass ends there without sleeping. The delay is set to the 1-second
  floor when the liveness probe reports alive, before the wait for the next tick; after
  a successful reconnect that is the next pass, if the probe then finds the session
  alive.
\<close>

theorem Handle_reset:
  "(reconnect w c = Inr (True, c') \<longrightarrow>
      reconnectDelay c' = reconnectDelay c
      \<and> (\<not> IsAlive w c (int64 (quo kii 10 * 9)) \<longrightarrow> Handle_pass kii w c = Inr c')
      \<and> (\<not> IsAlive w c (int64 (quo kii 10 * 9)) \<and> IsAlive w2 c' (int64 (quo kii 10 * 9)) \<longrightarrow>
           Handle_loop kii [w, w2] c =
             Inr (c'\<lparr>reconnectDelay := Second, trace := trace c' @ [Tick]\<rparr>)))
   \<and> (IsAlive w c (int64 (quo kii 10 * 9)) \<longrightarrow>
        Handle_pass kii w c = Inr (c\<lparr>reconnectDelay := Second, trace := trace c @ [Tick]\<rparr>))"
proof -
  have kept: "reconnectDelay c' = reconnectDelay c" if "reconnect w c = Inr (True, c')"
    using reconnect_frame(1) [OF that] .
  have pass: "Handle_pass kii w c = Inr c'"
    if "reconnect w c = Inr (True, c')" "\<not> IsAlive w c (int64 (quo kii 10 * 9))"
    using that by (simp add: Handle_pass_def)
  have alive: "Handle_pass kii w x = Inr (x\<lparr>reconnectDelay := Second, trace := trace x @ [Tick]\<rparr>)"
    if "IsAlive w x (int64 (quo kii 10 * 9))" for w x
    using that by (simp add: Handle_pass_def)
  have two: "Handle_loop kii [w, w2] c =
             Inr (c'\<lparr>reconnectDelay := Second, trace := trace c' @ [Tick]\<rparr>)"
    if "reconnect w c = Inr (True, c')" "\<not> IsAlive w c (int64 (quo kii 10 * 9))"
      "IsAlive w2 c' (int64 (quo kii 10 * 9))"
    using pass [OF that(1,2)] alive [OF that(3)] by simp
  show ?thesis using kept pass alive two by blast
qed

theorem Handle_reset_witness:
  "reconnect sample_world (projr (Handle [refusing_world] sample_database)) =
     Inr (True, projr (Handle [refusing_world, sample_world] sample_database))
   \<and> \<not> IsAlive sample_world (projr (Handle [refusing_world] sample_database))
         (int64 (quo 30000000000 10 * 9))
   \<and> IsAlive sample_world (projr (Handle [refusing_world, sample_world] sample_database))
         (int64 (quo 30000000000 10 * 9))
   \<and> reconnectDelay (projr (Handle [refusing_world, sample_world] sample_database)) = 2000000000
   \<and> reconnectDelay (projr (Handle_loop 30000000000 [sample_world, sample_world]
                               (projr (Handle [refusing_world] sample_database)))) = Second
   \<and> last (trace (projr (Handle_loop 30000000000 [sample_world, sample_world]
                               (projr (Handle [refusing_world] sample_database))))) = Tick"
proof -
  let ?c = "projr (Handle [refusing_world] sample_database)"
  let ?c' = "projr (Handle [refusing_world, sample_world] sample_database)"
  have dead: "\<not> IsAlive sample_world ?c (int64 (quo 30000000000 10 * 9))"
    by (simp add: first_failure) (simp add: IsAlive_def sample_database_def)
  have alive: "IsAlive sample_world ?c' (int64 (quo 30000000000 10 * 9))"
    by (simp add: failure_then_success)
       (simp add: IsAlive_def sample_database_def sample_world_def int64_def quo_def)
  have d: "reconnectDelay ?c' = 2000000000"
    by (simp add: failure_then_success)
  have loop: "Handle_loop 30000000000 [sample_world, sample_world] ?c =
      Inr (?c'\<lparr>reconnectDelay := Second, trace := trace ?c' @ [Tick]\<rparr>)"
    using Handle_reset [of sample_world ?c ?c' 30000000000 sample_world]
      success_after_failure dead alive
    by blast
  have r: "reconnectDelay (projr (Handle_loop 30000000000 [sample_world, sample_world] ?c)) = Second"
    "last (trace (projr (Handle_loop 30000000000 [sample_world, sample_world] ?c))) = Tick"
    by (subst loop, simp)+
  show ?thesis
    using success_after_failure dead alive d r by blast
qed

section \<open>Closing a connection\<close>

text \<open>
  C5. \<open>Close\<close> never returns an error. After it the session handle is nil and the
  listener set is empty; it has started one close for the session it held and one for
  each listener it held, and nothing else. With no session and no listeners it changes
  nothing, so a second \<open>Close\<close> right after the first starts no close at all.
\<close>

theorem Close_idempotent:
  "fst (Close c) = None
   \<and> conn (snd (Close c)) = None
   \<and> listeners (snd (Close c)) = []
   \<and> trace (snd (Close c)) =
       trace c @ (case conn c of None \<Rightarrow> [] | Some cl \<Rightarrow> [go_Client_Close cl])
               @ map go_Listener_Close (listeners c)
   \<and> (conn c = None \<and> listeners c = [] \<longrightarrow> Close c = (None, c))
   \<and> Close (snd (Close c)) = (None, snd (Close c))"
  by (simp add: Close_def Let_def split: option.split)

theorem Close_idempotent_witness:
  "conn sample_public_ip = None \<and> listeners sample_public_ip = []
   \<and> Close sample_public_ip = (None, sample_public_ip)
   \<and> trace (snd (Close (sample_public_ip\<lparr>conn := Some (Client 1),
                                            listeners := [Listener 0]\<rparr>)))
       = [go_Client_Close (Client 1), go_Listener_Close (Listener 0)]"
  using Close_idempotent [of sample_public_ip]
    Close_idempotent [of "sample_public_ip\<lparr>conn := Some (Client 1), listeners := [Listener 0]\<rparr>"]
  by (simp add: sample_public_ip_def)

section \<open>The liveness probe\<close>

text \<open>
  C6. \<open>IsAlive\<close> reports alive only when there is a session and the keepalive reply
  comes without error no later than the deadline, and it does report alive when such a
  reply comes before the deadline. A reply with an error, a reply after the deadline
  (with or without error), no reply at all, and no session all give not alive.
\<close>

theorem IsAlive_probe:
  "(IsAlive w c timeout \<longrightarrow>
      (\<exists>cl t. conn c = Some cl \<and> SendRequest w cl = Reply t None \<and> int t \<le> max 0 timeout))
   \<and> (conn c = Some cl \<and> SendRequest w cl = Reply t None \<and> int t < timeout
        \<longrightarrow> IsAlive w c timeout)
   \<and> (conn c = Some cl \<and> SendRequest w cl = Reply t (Some e) \<longrightarrow> \<not> IsAlive w c timeout)
   \<and> (conn c = Some cl \<and> SendRequest w cl = Reply t err \<and> max 0 timeout < int t
        \<longrightarrow> \<not> IsAlive w c timeout)
   \<and> (conn c = Some cl \<and> SendRequest w cl = NoReply \<longrightarrow> \<not> IsAlive w c timeout)
   \<and> (conn c = None \<longrightarrow> \<not> IsAlive w c timeout)"
  by (auto simp: IsAlive_def split: option.splits keepalive_reply.splits if_splits)

theorem IsAlive_probe_witness:
  "IsAlive sample_world (sample_public_ip\<lparr>conn := Some (Client 1)\<rparr>) 54000000000
   \<and> \<not> IsAlive (sample_world\<lparr>SendRequest := \<lambda>cl. Reply 1000000 (Some ''EOF'')\<rparr>)
          (sample_public_ip\<lparr>conn := Some (Client 1)\<rparr>) 54000000000
   \<and> \<not> IsAlive (sample_world\<lparr>SendRequest := \<lambda>cl. Reply 55000000000 None\<rparr>)
          (sample_public_ip\<lparr>conn := Some (Client 1)\<rparr>) 54000000000
   \<and> \<not> IsAlive (sample_world\<lparr>SendRequest := \<lambda>cl. NoReply\<rparr>)
          (sample_public_ip\<lparr>conn := Some (Client 1)\<rparr>) 54000000000
   \<and> \<not> IsAlive sample_world sample_public_ip 54000000000"
  using
    IsAlive_probe [of sample_world "sample_public_ip\<lparr>conn := Some (Client 1)\<rparr>" 54000000000
      "Client 1" 1000000]
    IsAlive_probe [of "sample_world\<lparr>SendRequest := \<lambda>cl. Reply 1000000 (Some ''EOF'')\<rparr>"
      "sample_public_ip\<lparr>conn := Some (Client 1)\<rparr>" 54000000000 "Client 1" 1000000 "''EOF''"]
    IsAlive_probe [of "sample_world\<lparr>SendRequest := \<lambda>cl. Reply 55000000000 None\<rparr>"
      "sample_public_ip\<lparr>conn := Some (Client 1)\<rparr>" 54000000000 "Client 1" 55000000000 _ None]
    IsAlive_probe [of "sample_world\<lparr>SendRequest := \<lambda>cl. NoReply\<rparr>"
      "sample_public_ip\<lparr>conn := Some (Client 1)\<rparr>" 54000000000 "Client 1"]
    IsAlive_probe [of sample_world sample_public_ip 54000000000]
  by (simp add: sample_world_def sample_public_ip_def)

section \<open>Pipes\<close>

lemma run_steps_Nil: "run_steps cc [] p = p"
  by (simp add: run_steps_def)

lemma run_steps_Cons: "run_steps cc (s # ss) p = run_steps cc ss (run_step cc s p)"
  by (simp add: run_steps_def)

text \<open>What a schedule of \<open>Once.Do\<close> steps closes, from any state of the two \<open>Once\<close>s.\<close>

lemma run_steps_closed:
  "conn1 (run_steps cc ss p) = conn1 p \<and> conn2 (run_steps cc ss p) = conn2 p
   \<and> closed (run_steps cc ss p) =
       closed p @ (if \<not> close1 p \<and> \<not> close2 p then
                     (if Do_close1 \<in> set ss \<and> Do_close2 \<in> set ss then
                        (if hd ss = Do_close1 then [conn1 p, conn2 p] else [conn2 p, conn1 p])
                      else if Do_close1 \<in> set ss then [conn1 p]
                      else if Do_close2 \<in> set ss then [conn2 p] else [])
                   else if \<not> close1 p then (if Do_close1 \<in> set ss then [conn1 p] else [])
                   else if \<not> close2 p then (if Do_close2 \<in> set ss then [conn2 p] else [])
                   else [])"
proof (induction ss arbitrary: p)
  case Nil
  show ?case by (simp add: run_steps_Nil)
next
  case (Cons s ss)
  show ?case
    by (cases s) (auto simp: run_steps_Cons Cons.IH close1_Do_def close2_Do_def)
qed

lemma run_tasks_steps:
  "run_tasks cc ts p = run_steps cc (concat (map (\<lambda>t. [Do_close1, Do_close2]) ts)) p"
  by (induction ts arbitrary: p)
     (simp_all add: run_tasks_def run_steps_def Pipe_Close_def split: prod.splits)

text \<open>
  C9. On the pipe \<open>ConnectConns a b\<close>: as soon as one task has finished (whichever it
  is) both streams are closed, and whatever tasks finish after it close nothing more.
  Calls of \<open>Close\<close> made one after the other are a schedule of \<open>Once.Do\<close> steps, and
  under every schedule of such steps, however the calls interleave, each of the two
  streams is closed once if its \<open>Once\<close> was reached at all and never twice.
\<close>

theorem Pipe_close_once:
  "closed (run_tasks cc (t # ts) (ConnectConns a b)) = [a, b]
   \<and> run_tasks cc ts p = run_steps cc (concat (map (\<lambda>t. [Do_close1, Do_close2]) ts)) p
   \<and> (a \<noteq> b \<longrightarrow>
        count_list (closed (run_steps cc ss (ConnectConns a b))) a
          = (if Do_close1 \<in> set ss then 1 else 0)
        \<and> count_list (closed (run_steps cc ss (ConnectConns a b))) b
          = (if Do_close2 \<in> set ss then 1 else 0)
        \<and> (\<forall>x. count_list (closed (run_steps cc ss (ConnectConns a b))) x \<le> 1))"
proof -
  have first: "closed (run_tasks cc (t # ts) (ConnectConns a b)) = [a, b]"
    by (simp add: run_tasks_steps run_steps_closed ConnectConns_def)
  have count: "count_list (closed (run_steps cc ss (ConnectConns a b))) x
        = (if x = a \<and> Do_close1 \<in> set ss then 1 else 0)
          + (if x = b \<and> Do_close2 \<in> set ss then 1 else 0)"
    if "a \<noteq> b" for x
    using that by (simp add: run_steps_closed ConnectConns_def)
  show ?thesis
    using first count run_tasks_steps [of cc ts p] by simp
qed

theorem Pipe_close_once_witness:
  "Conn 1 \<noteq> Conn 2
   \<and> closed (run_steps (\<lambda>x. None)
               [Do_close1, Do_close1, Do_close2, Do_close2, Do_close1, Do_close2]
               (ConnectConns (Conn 1) (Conn 2))) = [Conn 1, Conn 2]
   \<and> count_list (closed (run_steps (\<lambda>x. None)
                   [Do_close1, Do_close1, Do_close2, Do_close2, Do_close1, Do_close2]
                   (ConnectConns (Conn 1) (Conn 2)))) (Conn 1) = 1
   \<and> closed (run_tasks (\<lambda>x. None) [copy_2_to_1, external, copy_1_to_2]
               (ConnectConns (Conn 1) (Conn 2))) = [Conn 1, Conn 2]"
  using Pipe_close_once [where cc = "\<lambda>x. None" and a = "Conn 1" and b = "Conn 2"
      and t = copy_2_to_1 and ts = "[external, copy_1_to_2]"
      and ss = "[Do_close1, Do_close1, Do_close2, Do_close2, Do_close1, Do_close2]"]
  by (simp add: run_steps_def close1_Do_def close2_Do_def ConnectConns_def)

section \<open>Forwarders\<close>

lemma Forward_accepted:
  "Forward addr (map Accepted cs @ rest) to with f =
   Forward addr rest to with (f\<lparr>started := started f @ map (Forward_conn to with) cs\<rparr>)"
  by (induction cs arbitrary: f) simp_all

text \<open>
  C8. A forwarder whose listener hands it the connections \<open>cs\<close> starts one handler per
  connection and is still accepting afterwards. The handler of a connection whose dial
  succeeds couples it with the dialled stream; the handler of a connection whose dial
  fails closes that connection and logs. So the connections closed are exactly those
  whose dial failed. An error from \<open>Accept\<close> is logged and ends the forwarder: whatever
  the listener would have answered after it is never asked for.
\<close>

theorem Forward_resilient:
  "Forward addr (map Accepted cs) to with \<lparr>started = [], logged = [], returned = False\<rparr>
     = \<lparr>started = map (Forward_conn to with) cs, logged = [], returned = False\<rparr>
   \<and> (\<forall>i < length cs.
         (\<forall>toConn. with (cs ! i) = Inr toConn \<longrightarrow>
            Forward_conn to with (cs ! i) = [go_ConnectConns (cs ! i) toConn])
       \<and> (\<forall>err. with (cs ! i) = Inl err \<longrightarrow>
            Forward_conn to with (cs ! i) =
              [conn_Close (cs ! i), log_line (''failed to connect to '' @ to @ '': '' @ err)]))
   \<and> (\<forall>x. conn_Close x \<in> set (concat (map (Forward_conn to with) cs))
          \<longleftrightarrow> x \<in> set cs \<and> isl (with x))
   \<and> Forward addr (map Accepted cs @ Accept_error e # rest) to with
        \<lparr>started = [], logged = [], returned = False\<rparr>
     = \<lparr>started = map (Forward_conn to with) cs,
        logged = [''error listening on '' @ addr @ '': '' @ e], returned = True\<rparr>"
proof -
  have running:
    "Forward addr (map Accepted cs) to with \<lparr>started = [], logged = [], returned = False\<rparr>
     = \<lparr>started = map (Forward_conn to with) cs, logged = [], returned = False\<rparr>"
    using Forward_accepted [of addr cs "[]"] by simp
  have stopped:
    "Forward addr (map Accepted cs @ Accept_error e # rest) to with
        \<lparr>started = [], logged = [], returned = False\<rparr>
     = \<lparr>started = map (Forward_conn to with) cs,
        logged = [''error listening on '' @ addr @ '': '' @ e], returned = True\<rparr>"
    by (simp add: Forward_accepted)
  have closes: "conn_Close x \<in> set (concat (map (Forward_conn to with) cs))
          \<longleftrightarrow> x \<in> set cs \<and> isl (with x)" for x
    by (induction cs) (auto simp: Forward_conn_def split: sum.splits)
  show ?thesis
    using running stopped closes by (simp add: Forward_conn_def)
qed

theorem Forward_resilient_witness:
  "Forward ''127.0.0.1:30000'' [Accepted (Conn 1), Accepted (Conn 2), Accepted (Conn 3)]
     ''127.0.0.1:3306''
     (\<lambda>c. if c = Conn 2 then Inl ''connection refused'' else Inr (Conn (10 + (case c of Conn n \<Rightarrow> n))))
     \<lparr>started = [], logged = [], returned = False\<rparr>
   = \<lparr>started = [[go_ConnectConns (Conn 1) (Conn 11)],
                 [conn_Close (Conn 2),
                  log_line ''failed to connect to 127.0.0.1:3306: connection refused''],
                 [go_ConnectConns (Conn 3) (Conn 13)]],
      logged = [], returned = False\<rparr>"
  using Forward_resilient [of "''127.0.0.1:30000''" "[Conn 1, Conn 2, Conn 3]" "''127.0.0.1:3306''"
      "\<lambda>c. if c = Conn 2 then Inl ''connection refused'' else Inr (Conn (10 + (case c of Conn n \<Rightarrow> n)))"]
  by (simp add: Forward_conn_def)

end
